theory Spec2Isabelle
  imports Main "HOL-Library.Word"
begin

section \<open>Strings\<close>

text \<open>
  \<^verbatim>\<open>std::endl\<close> written to a string stream is the newline character; the single
  quote of the diagnostics is written by its code.
\<close>

definition endl :: string where
  "endl = [CHR 0x0A]"

definition quote :: string where
  "quote = [CHR 0x27]"

text \<open>
  \<^verbatim>\<open>isspace\<close> in the C locale, and \<^verbatim>\<open>android::base::Trim\<close> and
  \<^verbatim>\<open>android::base::EndsWith\<close> of libbase (a library outside this repository):
  \<open>Trim\<close> drops the leading and the trailing run of \<open>isspace\<close> characters,
  \<open>EndsWith\<close> compares the last \<open>length suffix\<close> characters.
\<close>

definition isspace :: "char \<Rightarrow> bool" where
  "isspace c = (c \<in> set [CHR '' '', CHR 0x09, CHR 0x0A, CHR 0x0B, CHR 0x0C, CHR 0x0D])"

definition Trim :: "string \<Rightarrow> string" where
  "Trim s = rev (dropWhile isspace (rev (dropWhile isspace s)))"

definition EndsWith :: "string \<Rightarrow> string \<Rightarrow> bool" where
  "EndsWith s suffix =
     (length suffix \<le> length s \<and> drop (length s - length suffix) s = suffix)"

text \<open>
  \<^verbatim>\<open>std::string::replace(pos, len, str)\<close>: throws \<^verbatim>\<open>std::out_of_range\<close> when
  \<open>pos\<close> lies beyond the end of the string, and otherwise replaces the (at most)
  \<open>len\<close> characters from \<open>pos\<close> on. Positions and lengths are \<^verbatim>\<open>size_t\<close>,
  an unsigned 64-bit integer on the hosts the tool is built for, so that a
  subtraction below zero wraps around.
\<close>

type_synonym size_t = "64 word"

datatype exception = out_of_range

definition strlen :: "string \<Rightarrow> size_t" where
  "strlen s = of_nat (length s)"

definition string_replace :: "string \<Rightarrow> size_t \<Rightarrow> size_t \<Rightarrow> string \<Rightarrow> exception + string" where
  "string_replace s pos len str =
     (if length s < unat pos then Inl out_of_range
      else Inr (take (unat pos) s @ str @ drop (unat pos + unat len) s))"

text \<open>\<^verbatim>\<open>operator<<\<close> of an \<^verbatim>\<open>int\<close>: its decimal digits, after a minus sign if negative.\<close>

fun digits :: "nat \<Rightarrow> string" where
  "digits n =
     (if n < 10 then [char_of (48 + n)] else digits (n div 10) @ [char_of (48 + n mod 10)])"

definition show_int :: "int \<Rightarrow> string" where
  "show_int i = (if i < 0 then ''-'' @ digits (nat (- i)) else digits (nat i))"

section \<open>The option scanner\<close>

text \<open>
  \<^verbatim>\<open>getopt_long\<close> belongs to the C library. It is modelled as its manual page
  describes the call made by the constructor: the short options of \<open>optstring\<close>,
  the table \<open>long_options\<close>, no \<^verbatim>\<open>POSIXLY_CORRECT\<close> in the environment, so that
  non-option elements are passed over and end up, in their order, after the
  options. The scanner's state is the rest of the cluster of short options it is
  in (\<open>nextchar\<close>), the elements from \<^verbatim>\<open>argv[optind]\<close> on (\<open>args\<close>; while a cluster
  is being read its element is still the first of them) and the non-options
  passed over so far (\<open>nonopts\<close>). What \<^verbatim>\<open>getopt_long\<close> itself prints on the
  standard error stream is no part of the object and is left out.
\<close>

datatype has_arg = no_argument | required_argument

definition long_options :: "(string \<times> has_arg \<times> char) list" where
  "long_options =
     [(''lang'', required_argument, CHR ''l''),
      (''preprocess'', no_argument, CHR ''s''),
      (''dumpapi'', no_argument, CHR ''u''),
      (''include'', required_argument, CHR ''I''),
      (''preprocessed'', required_argument, CHR ''p''),
      (''dep'', required_argument, CHR ''d''),
      (''out'', required_argument, CHR ''o''),
      (''header_out'', required_argument, CHR ''h''),
      (''ninja'', no_argument, CHR ''n''),
      (''trace'', no_argument, CHR ''t''),
      (''transaction_names'', no_argument, CHR ''c''),
      (''help'', no_argument, CHR ''e'')]"

definition optstring :: string where
  "optstring = ''I:p:d:o:h:abt''"

record getopt_state =
  nextchar :: string
  args :: "string list"
  nonopts :: "string list"

text \<open>
  A call returns \<open>-1\<close> (\<open>End\<close>, with what \<^verbatim>\<open>argv[optind..argc)\<close> then holds: the
  positional tail), or an option character with \<^verbatim>\<open>optarg\<close> (\<open>[]\<close> where
  \<^verbatim>\<open>getopt_long\<close> leaves it null: the constructor reads it only for options that
  take a value) and the state for the next call. The character \<open>?\<close> reports an
  unknown or ambiguous option, a missing value, or a value given to an option
  that takes none.
\<close>

datatype getopt_result = End "string list" | Opt char string getopt_state

definition short_has_arg :: "char \<Rightarrow> has_arg option" where
  "short_has_arg c =
     (let temp = dropWhile (\<lambda>x. x \<noteq> c) optstring
      in if temp = [] \<or> c = CHR '':'' \<or> c = CHR '';'' then None
         else if take 1 (tl temp) = '':'' then Some required_argument
         else Some no_argument)"

definition short_option :: "char \<Rightarrow> string \<Rightarrow> string list \<Rightarrow> string list \<Rightarrow> getopt_result" where
  "short_option c cs as ns =
     (let as' = (if cs = [] then tl as else as)
      in case short_has_arg c of
           None \<Rightarrow> Opt (CHR ''?'') [] \<lparr>nextchar = cs, args = as', nonopts = ns\<rparr>
         | Some no_argument \<Rightarrow> Opt c [] \<lparr>nextchar = cs, args = as', nonopts = ns\<rparr>
         | Some required_argument \<Rightarrow>
             if cs \<noteq> [] then Opt c cs \<lparr>nextchar = [], args = tl as, nonopts = ns\<rparr>
             else (case as' of
                     [] \<Rightarrow> Opt (CHR ''?'') [] \<lparr>nextchar = [], args = [], nonopts = ns\<rparr>
                   | v # as'' \<Rightarrow> Opt c v \<lparr>nextchar = [], args = as'', nonopts = ns\<rparr>))"

definition find_long :: "string \<Rightarrow> (string \<times> has_arg \<times> char) option" where
  "find_long name =
     (case filter (\<lambda>p. fst p = name) long_options of
        p # _ \<Rightarrow> Some p
      | [] \<Rightarrow>
          (case filter (\<lambda>p. take (length name) (fst p) = name) long_options of
             [] \<Rightarrow> None
           | p # ps \<Rightarrow> if list_ex (\<lambda>q. snd q \<noteq> snd p) ps then None else Some p))"

definition long_option :: "string \<Rightarrow> string list \<Rightarrow> string list \<Rightarrow> getopt_result" where
  "long_option s as ns =
     (let name = takeWhile (\<lambda>x. x \<noteq> CHR ''='') s
      in case find_long name of
           None \<Rightarrow> Opt (CHR ''?'') [] \<lparr>nextchar = [], args = as, nonopts = ns\<rparr>
         | Some (_, has, val) \<Rightarrow>
             if name \<noteq> s then
               (if has = required_argument
                then Opt val (drop (Suc (length name)) s) \<lparr>nextchar = [], args = as, nonopts = ns\<rparr>
                else Opt (CHR ''?'') [] \<lparr>nextchar = [], args = as, nonopts = ns\<rparr>)
             else if has = required_argument then
               (case as of
                  [] \<Rightarrow> Opt (CHR ''?'') [] \<lparr>nextchar = [], args = [], nonopts = ns\<rparr>
                | v # as' \<Rightarrow> Opt val v \<lparr>nextchar = [], args = as', nonopts = ns\<rparr>)
             else Opt val [] \<lparr>nextchar = [], args = as, nonopts = ns\<rparr>)"

definition NONOPTION_P :: "string \<Rightarrow> bool" where
  "NONOPTION_P a = (take 1 a \<noteq> ''-'' \<or> length a = 1)"

primrec next_element :: "string list \<Rightarrow> string list \<Rightarrow> getopt_result" where
  "next_element [] ns = End ns"
| "next_element (a # as) ns =
     (if a = ''--'' then End (ns @ as)
      else if NONOPTION_P a then next_element as (ns @ [a])
      else if take 2 a = ''--'' then long_option (drop 2 a) as ns
      else short_option (a ! 1) (drop 2 a) (a # as) ns)"

definition getopt_long :: "getopt_state \<Rightarrow> getopt_result" where
  "getopt_long g =
     (case nextchar g of
        [] \<Rightarrow> next_element (args g) (nonopts g)
      | c # cs \<Rightarrow> short_option c cs (args g) (nonopts g))"

text \<open>\<^verbatim>\<open>argv[optind]\<close>, a null pointer when \<^verbatim>\<open>optind\<close> has reached \<^verbatim>\<open>argc\<close>.\<close>

definition argv_optind :: "getopt_state \<Rightarrow> string option" where
  "argv_optind g = (case args g of [] \<Rightarrow> None | a # _ \<Rightarrow> Some a)"

section \<open>The configuration\<close>

text \<open>
  Modelled from the spec: the header \<^verbatim>\<open>options.h\<close>, which declares the two
  enumerations and the members of the class with their initial values, is not
  among the sources. The enumerations are those of the spec's data model; the
  members are the ones the constructor assigns, strings and vectors starting
  empty and flags starting false. The initial value of \<^verbatim>\<open>task_\<close> is left open:
  it is the first argument of the model of the constructor.
\<close>

datatype Language = JAVA | CPP

datatype Task = UNSPECIFIED | COMPILE | PREPROCESS | DUMPAPI

record Options =
  myname :: string
  language :: Language
  task :: Task
  import_paths :: "string list"
  preprocessed_files :: "string list"
  dependency_file :: string
  output_dir :: string
  output_header_dir :: string
  dependency_file_ninja :: bool
  gen_traces :: bool
  auto_dep_file :: bool
  fail_on_parcelable :: bool
  gen_transaction_names :: bool
  input_files :: "string list"
  output_file :: string
  error_message :: string

definition initial :: "Task \<Rightarrow> string \<Rightarrow> Language \<Rightarrow> Options" where
  "initial task_init name default_lang =
     \<lparr>myname = name, language = default_lang, task = task_init,
      import_paths = [], preprocessed_files = [], dependency_file = [],
      output_dir = [], output_header_dir = [], dependency_file_ninja = False,
      gen_traces = False, auto_dep_file = False, fail_on_parcelable = False,
      gen_transaction_names = False, input_files = [], output_file = [],
      error_message = []\<rparr>"

text \<open>\<^verbatim>\<open>error_message_ << text\<close>, and \<^verbatim>\<open>Ok()\<close>: no diagnostic has been written.\<close>

definition err :: "string \<Rightarrow> Options \<Rightarrow> Options" where
  "err text this = this\<lparr>error_message := error_message this @ text\<rparr>"

definition Ok :: "Options \<Rightarrow> bool" where
  "Ok this = (error_message this = [])"

section \<open>The usage text\<close>

definition GetUsage :: "Options \<Rightarrow> string" where
  "GetUsage this =
     ''usage:'' @ endl
     @ myname this @ '' --lang={java|cpp} [OPTION]... INPUT...'' @ endl
     @ ''   Generate Java or C++ files for AIDL file(s).'' @ endl
     @ endl
     @ myname this @ '' --preprocess OUTPUT INPUT...'' @ endl
     @ ''   Create an AIDL file having declarations of AIDL file(s).'' @ endl
     @ endl
     @ myname this @ '' --dumpapi OUTPUT INPUT...'' @ endl
     @ ''   Dump API signature of AIDL file(s).'' @ endl
     @ endl
     @ (if language this = JAVA then
          myname this @ '' [OPTION]... INPUT [OUTPUT]'' @ endl
          @ ''   Generate a Java file for an AIDL file.'' @ endl
          @ endl
        else if language this = CPP then
          myname this @ '' [OPTION]... INPUT HEADER_DIR OUTPUT'' @ endl
          @ ''   Generate C++ headers and source for an AIDL file.'' @ endl
          @ endl
        else [])
     @ ''OPTION:'' @ endl
     @ ''  -I DIR, --include=DIR'' @ endl
     @ ''          Use DIR as a search path for import statements.'' @ endl
     @ ''  -p FILE, --preprocessed=FILE'' @ endl
     @ ''          Include FILE which is created by --preprocess.'' @ endl
     @ ''  -d FILE, --dep=FILE'' @ endl
     @ ''          Generate dependency file as FILE. Don'' @ quote @ ''t use this when'' @ endl
     @ ''          there are multiple input files. Use -a then.'' @ endl
     @ ''  -o DIR, --out=DIR'' @ endl
     @ ''          Use DIR as the base output directory for generated files.'' @ endl
     @ ''  -h DIR, --header_out=DIR'' @ endl
     @ ''          Generate C++ headers under DIR.'' @ endl
     @ ''  -a'' @ endl
     @ ''          Generate dependency file next to the output file with the'' @ endl
     @ ''          name based on the input file.'' @ endl
     @ ''  -b'' @ endl
     @ ''          Trigger fail when trying to compile a parcelable.'' @ endl
     @ ''  --ninja'' @ endl
     @ ''          Generate dependency file in a format ninja understands.'' @ endl
     @ ''  -t, --trace'' @ endl
     @ ''          Include tracing code for systrace. Note that if either'' @ endl
     @ ''          the client or service code is not auto-generated by this'' @ endl
     @ ''          tool, that part will not be traced.'' @ endl
     @ ''  --transaction_names'' @ endl
     @ ''          Generate transaction names.'' @ endl
     @ ''  --help'' @ endl
     @ ''          Show this help.'' @ endl
     @ endl
     @ ''INPUT:'' @ endl
     @ ''  An AIDL file.'' @ endl
     @ endl
     @ ''OUTPUT:'' @ endl
     @ ''  Path to the generated Java or C++ source file. This is ignored when'' @ endl
     @ ''  -o or --out is specified or the number of the input files are'' @ endl
     @ ''  more than one.'' @ endl
     @ ''  For Java, if omitted, Java source file is generated at the same'' @ endl
     @ ''  place as the input AIDL file,'' @ endl
     @ endl
     @ ''HEADER_DIR:'' @ endl
     @ ''  Path to where C++ headers are generated.'' @ endl"

section \<open>The constructor\<close>

text \<open>
  What a call of the constructor ends in: the object (valid or carrying a
  diagnostic), the end of the process by \<^verbatim>\<open>exit\<close> after \<open>text\<close> has gone to
  \<^verbatim>\<open>std::cerr\<close>, an exception leaving the constructor, or behaviour the language
  does not define (a null pointer read as a string).
\<close>

datatype Outcome =
  Constructed Options
| Exit string int
| Throw exception
| Undefined

subsection \<open>The switch over the option character\<close>

text \<open>
  One pass through the \<^verbatim>\<open>switch\<close>: \<open>Break\<close> goes on with the loop, carrying
  \<^verbatim>\<open>lang_option_found\<close> and the object; \<open>Leave\<close> leaves the constructor.
\<close>

datatype Flow = Break bool Options | Leave Outcome

definition option_switch :: "char \<Rightarrow> string \<Rightarrow> string option \<Rightarrow> bool \<Rightarrow> Options \<Rightarrow> Flow" where
  "option_switch c optarg at_optind lang_option_found this =
     (if c = CHR ''l'' then
        (if language this = CPP then
           Leave (Constructed (err (''aidl-cpp does not support --lang.'' @ endl) this))
         else
           (let lang = Trim optarg
            in if lang = ''java'' then Break True (this\<lparr>language := JAVA, task := COMPILE\<rparr>)
               else if lang = ''cpp'' then Break True (this\<lparr>language := CPP, task := COMPILE\<rparr>)
               else Leave (Constructed
                      (err (''Unsupported language: '' @ quote @ lang @ quote @ endl) this))))
      else if c = CHR ''s'' then
        Break lang_option_found (if task this \<noteq> UNSPECIFIED then this\<lparr>task := PREPROCESS\<rparr> else this)
      else if c = CHR ''u'' then
        Break lang_option_found (if task this \<noteq> UNSPECIFIED then this\<lparr>task := DUMPAPI\<rparr> else this)
      else if c = CHR ''I'' then
        Break lang_option_found (this\<lparr>import_paths := import_paths this @ [Trim optarg]\<rparr>)
      else if c = CHR ''p'' then
        Break lang_option_found (this\<lparr>preprocessed_files := preprocessed_files this @ [Trim optarg]\<rparr>)
      else if c = CHR ''d'' then
        Break lang_option_found (this\<lparr>dependency_file := Trim optarg\<rparr>)
      else if c = CHR ''o'' then
        Break lang_option_found (this\<lparr>output_dir := Trim optarg\<rparr>)
      else if c = CHR ''h'' then
        Break lang_option_found (this\<lparr>output_header_dir := Trim optarg\<rparr>)
      else if c = CHR ''n'' then
        Break lang_option_found (this\<lparr>dependency_file_ninja := True\<rparr>)
      else if c = CHR ''t'' then
        Break lang_option_found (this\<lparr>gen_traces := True\<rparr>)
      else if c = CHR ''a'' then
        Break lang_option_found (this\<lparr>auto_dep_file := True\<rparr>)
      else if c = CHR ''b'' then
        Break lang_option_found (this\<lparr>fail_on_parcelable := True\<rparr>)
      else if c = CHR ''c'' then
        Break lang_option_found (this\<lparr>gen_transaction_names := True\<rparr>)
      else if c = CHR ''e'' then
        Leave (Exit (GetUsage this) 0)
      else
        (case at_optind of
           None \<Rightarrow> Leave Undefined
         | Some a \<Rightarrow>
             Leave (Constructed (err (''Invalid argument: '' @ quote @ a @ quote @ endl) this))))"

subsection \<open>The loop over the options\<close>

text \<open>
  The loop calls \<^verbatim>\<open>getopt_long\<close> until it returns \<open>-1\<close>. Every call that returns
  an option leaves less to scan, which \<open>scan_size\<close> measures.
\<close>

definition scan_size :: "getopt_state \<Rightarrow> nat" where
  "scan_size g =
     (case nextchar g of
        [] \<Rightarrow> sum_list (map (\<lambda>a. Suc (length a)) (args g))
      | _ # _ \<Rightarrow> length (nextchar g) + sum_list (map (\<lambda>a. Suc (length a)) (tl (args g))))"

lemma short_option_smaller:
  "short_option c cs as ns = Opt x v g' \<Longrightarrow>
     scan_size g' < Suc (length cs) + sum_list (map (\<lambda>a. Suc (length a)) (tl as))"
  by (cases as)
     (auto simp: short_option_def scan_size_def Let_def
           split: option.splits has_arg.splits if_splits list.splits)

lemma long_option_smaller:
  "long_option s as ns = Opt x v g' \<Longrightarrow>
     scan_size g' \<le> sum_list (map (\<lambda>a. Suc (length a)) as)"
  by (auto simp: long_option_def scan_size_def Let_def
           split: option.splits prod.splits if_splits list.splits)

lemma next_element_smaller:
  "next_element as ns = Opt x v g' \<Longrightarrow>
     scan_size g' < sum_list (map (\<lambda>a. Suc (length a)) as)"
proof (induction as arbitrary: ns)
  case Nil
  then show ?case by simp
next
  case (Cons a as)
  show ?case
  proof (cases "a = ''--''")
    case True
    with Cons.prems show ?thesis by simp
  next
    case dashes: False
    show ?thesis
    proof (cases "NONOPTION_P a")
      case True
      with dashes Cons.prems have "next_element as (ns @ [a]) = Opt x v g'" by simp
      from Cons.IH [OF this] show ?thesis by simp
    next
      case option: False
      show ?thesis
      proof (cases "take 2 a = ''--''")
        case True
        with dashes option Cons.prems have "long_option (drop 2 a) as ns = Opt x v g'"
          by simp
        from long_option_smaller [OF this] show ?thesis by simp
      next
        case False
        with dashes option Cons.prems
        have "short_option (a ! 1) (drop 2 a) (a # as) ns = Opt x v g'" by simp
        from short_option_smaller [OF this] show ?thesis by simp
      qed
    qed
  qed
qed

lemma getopt_long_smaller:
  "getopt_long g = Opt x v g' \<Longrightarrow> scan_size g' < scan_size g"
proof (cases "nextchar g")
  case Nil
  assume "getopt_long g = Opt x v g'"
  with Nil have "next_element (args g) (nonopts g) = Opt x v g'"
    by (simp add: getopt_long_def)
  from next_element_smaller [OF this] Nil show ?thesis
    by (simp add: scan_size_def)
next
  case (Cons c cs)
  assume "getopt_long g = Opt x v g'"
  with Cons have "short_option c cs (args g) (nonopts g) = Opt x v g'"
    by (simp add: getopt_long_def)
  from short_option_smaller [OF this] Cons show ?thesis
    by (simp add: scan_size_def)
qed

text \<open>
  After the loop either the constructor has been left, or the positional tail
  remains to be read, with \<^verbatim>\<open>lang_option_found\<close> and the object as the options
  left them.
\<close>

datatype Scanned = Positional "string list" bool Options | Left Outcome

function option_loop :: "getopt_state \<Rightarrow> bool \<Rightarrow> Options \<Rightarrow> Scanned" where
  "option_loop g lang_option_found this =
     (case getopt_long g of
        End positional \<Rightarrow> Positional positional lang_option_found this
      | Opt c optarg g' \<Rightarrow>
          (case option_switch c optarg (argv_optind g') lang_option_found this of
             Break found' this' \<Rightarrow> option_loop g' found' this'
           | Leave out \<Rightarrow> Left out))"
  by pat_completeness auto
termination
  by (relation "measure (\<lambda>(g, found, this). scan_size g)")
     (auto dest: getopt_long_smaller)

declare option_loop.simps [simp del]

subsection \<open>The positional arguments\<close>

definition too_many_arguments :: "string list \<Rightarrow> Options \<Rightarrow> Options" where
  "too_many_arguments rest this =
     (if 0 < length rest
      then err (''Too many arguments: '' @ concat (map (\<lambda>a. '' '' @ a) rest) @ endl) this
      else this)"

text \<open>
  The legacy format. \<open>positional\<close> is \<^verbatim>\<open>argv[optind..argc)\<close>, so that
  \<^verbatim>\<open>argc - optind\<close> is its length and \<^verbatim>\<open>argv[optind++]\<close> takes its head.
\<close>

definition legacy_arguments :: "string list \<Rightarrow> Options \<Rightarrow> Outcome" where
  "legacy_arguments positional this =
     (case positional of
        [] \<Rightarrow> Constructed (err (''No input file'' @ endl) this)
      | input # rest \<Rightarrow>
          if language this = JAVA then
            (let this = this\<lparr>input_files := input_files this @ [input]\<rparr>
             in case rest of
                  out # rest' \<Rightarrow> Constructed (too_many_arguments rest' (this\<lparr>output_file := out\<rparr>))
                | [] \<Rightarrow>
                    (let front = hd (input_files this)
                     in case string_replace front (strlen front - strlen ''.aidl'')
                               (strlen ''.aidl'') ''.java'' of
                          Inl e \<Rightarrow> Throw e
                        | Inr replaced \<Rightarrow>
                            Constructed (too_many_arguments [] (this\<lparr>output_file := replaced\<rparr>))))
          else if language this = CPP then
            (let this = this\<lparr>input_files := input_files this @ [input]\<rparr>
             in if length rest < 2 then Constructed (err (''No HEADER_DIR or OUTPUT.'' @ endl) this)
                else Constructed (too_many_arguments (drop 2 rest)
                       (this\<lparr>output_header_dir := rest ! 0, output_file := rest ! 1\<rparr>)))
          else Constructed (too_many_arguments positional this))"

text \<open>The new format: \<open>Inl\<close> leaves the constructor, \<open>Inr\<close> goes on to the checks.\<close>

definition new_arguments :: "string list \<Rightarrow> Options \<Rightarrow> Outcome + Options" where
  "new_arguments positional this =
     (if task this = COMPILE then
        (if length positional < 1 then Inl (Constructed (err (''No input file.'' @ endl) this))
         else Inr (this\<lparr>input_files := input_files this @ positional\<rparr>))
      else
        (if length positional < 2 then
           Inl (Constructed (err (''Insufficient arguments. At least 2 required, but ''
                  @ ''got '' @ show_int (int (length positional)) @ ''.'' @ endl) this))
         else Inr (this\<lparr>output_file := hd positional,
                        input_files := input_files this @ tl positional\<rparr>)))"

subsection \<open>The checks of the combination\<close>

text \<open>
  The checks run in the source's order and the first that fails writes its
  diagnostic and returns; each test below carries the conditions of the blocks
  that enclose it in the source. The loop over the input files stops at the
  first one without the extension.
\<close>

definition filter_invalid :: "Options \<Rightarrow> Options" where
  "filter_invalid this =
     (case find (\<lambda>input. \<not> EndsWith input ''.aidl'') (input_files this) of
        Some input \<Rightarrow>
          err (''Expected .aidl file for input but got '' @ quote @ input @ quote @ endl) this
      | None \<Rightarrow>
          if language this = CPP \<and> task this = COMPILE \<and> output_dir this = [] then
            err (''Output directory is not set. Set with --out.'' @ endl) this
          else if language this = CPP \<and> task this = COMPILE \<and> output_header_dir this = [] then
            err (''Header output directory is not set. Set with '' @ ''--header_out.'' @ endl) this
          else if language this = JAVA \<and> task this = COMPILE \<and> output_dir this = [] then
            err (''Output directory is not set. Set with --out.'' @ endl) this
          else if language this = JAVA \<and> task this = COMPILE \<and> output_header_dir this \<noteq> [] then
            err (''Header output directory is set, which does not make ''
                 @ ''sense for Java.'' @ endl) this
          else if task this = COMPILE \<and> output_file this \<noteq> [] \<and> 1 < length (input_files this) then
            err (''Multiple AIDL files can'' @ quote @ ''t be compiled to a single ''
                 @ ''output file '' @ quote @ output_file this @ quote @ ''. ''
                 @ ''Use --out=DIR instead for output files.'' @ endl) this
          else if task this = COMPILE \<and> dependency_file this \<noteq> [] \<and> 1 < length (input_files this) then
            err (''-d or --dep doesn'' @ quote @ ''t work when compiling multiple AIDL ''
                 @ ''files. Use '' @ quote @ ''-a'' @ quote @ '' to generate dependency file next to ''
                 @ ''the output file with the name based on the input ''
                 @ ''file.'' @ endl) this
          else this)"

subsection \<open>The whole constructor\<close>

text \<open>
  The part after the loop: the legacy format when no \<^verbatim>\<open>--lang\<close> was seen and the
  task is to compile, which returns without the checks; the new format and the
  checks otherwise.
\<close>

definition positional_arguments :: "string list \<Rightarrow> bool \<Rightarrow> Options \<Rightarrow> Outcome" where
  "positional_arguments positional lang_option_found this =
     (if \<not> lang_option_found \<and> task this = COMPILE then legacy_arguments positional this
      else (case new_arguments positional this of
              Inl out \<Rightarrow> out
            | Inr this' \<Rightarrow> Constructed (filter_invalid this')))"

text \<open>
  \<open>Options_Options task_init argv default_lang\<close> is the constructor called with
  \<open>argc = length argv\<close>, in a class whose member \<^verbatim>\<open>task_\<close> starts as \<open>task_init\<close>.
  The scan starts at \<^verbatim>\<open>optind = 1\<close>; an empty \<open>argv\<close> has no \<^verbatim>\<open>argv[0]\<close> to
  build \<^verbatim>\<open>myname_\<close> from.
\<close>

definition Options_Options :: "Task \<Rightarrow> string list \<Rightarrow> Language \<Rightarrow> Outcome" where
  "Options_Options task_init argv default_lang =
     (case argv of
        [] \<Rightarrow> Undefined
      | name # rest \<Rightarrow>
          (case option_loop \<lparr>nextchar = [], args = rest, nonopts = []\<rparr> False
                  (initial task_init name default_lang) of
             Left out \<Rightarrow> out
           | Positional positional lang_option_found this \<Rightarrow>
               positional_arguments positional lang_option_found this))"

section \<open>The options an argument vector delivers\<close>

text \<open>
  For statements about whole argument vectors: the options that the successive
  calls of \<^verbatim>\<open>getopt_long\<close> deliver from a state on, each with \<^verbatim>\<open>optarg\<close> and
  with \<^verbatim>\<open>argv[optind]\<close> as the call leaves it; the positional tail the last call
  leaves; and the switch run over a list of such options, stopping where it
  leaves the constructor. The lemma \<open>option_loop_switches\<close> below shows that the
  loop is exactly this run.
\<close>

type_synonym event = "char \<times> string \<times> string option"

function getopt_events :: "getopt_state \<Rightarrow> event list" where
  "getopt_events g =
     (case getopt_long g of
        End positional \<Rightarrow> []
      | Opt c optarg g' \<Rightarrow> (c, optarg, argv_optind g') # getopt_events g')"
  by pat_completeness auto
termination
  by (relation "measure scan_size") (auto dest: getopt_long_smaller)

declare getopt_events.simps [simp del]

function getopt_positional :: "getopt_state \<Rightarrow> string list" where
  "getopt_positional g =
     (case getopt_long g of
        End positional \<Rightarrow> positional
      | Opt c optarg g' \<Rightarrow> getopt_positional g')"
  by pat_completeness auto
termination
  by (relation "measure scan_size") (auto dest: getopt_long_smaller)

declare getopt_positional.simps [simp del]

fun switches :: "event list \<Rightarrow> bool \<Rightarrow> Options \<Rightarrow> Flow" where
  "switches [] lang_option_found this = Break lang_option_found this"
| "switches ((c, optarg, at_optind) # es) lang_option_found this =
     (case option_switch c optarg at_optind lang_option_found this of
        Break found' this' \<Rightarrow> switches es found' this'
      | Leave out \<Rightarrow> Leave out)"

text \<open>While a cluster of short options is being read, its element is still there.\<close>

definition cluster_has_element :: "getopt_state \<Rightarrow> bool" where
  "cluster_has_element g = (nextchar g = [] \<or> args g \<noteq> [])"

text \<open>
  The ways to spell an option with a value in the argument vector. For the option
  character \<open>c\<close> with the long name \<open>name\<close> these are \<^verbatim>\<open>--name=v\<close>, \<^verbatim>\<open>--name v\<close> and
  \<^verbatim>\<open>-c v\<close>, the last one also at the end of a cluster of short options whose
  element is being read, and, for a value that is not empty, \<^verbatim>\<open>-cv\<close>, again also at
  the end of a cluster. The predicate says that the loop, met with any of these
  spellings, goes on behind the value as it does from the object that \<open>store\<close>
  makes with the trimmed value.
\<close>

definition spelled_value_stored ::
  "char \<Rightarrow> string \<Rightarrow> (string \<Rightarrow> Options \<Rightarrow> Options) \<Rightarrow> string \<Rightarrow> string \<Rightarrow> string list \<Rightarrow>
     string list \<Rightarrow> bool \<Rightarrow> Options \<Rightarrow> bool" where
  "spelled_value_stored c name store v element rest ns found this =
     (let after = option_loop \<lparr>nextchar = [], args = rest, nonopts = ns\<rparr> found
                    (store (Trim v) this)
      in option_loop \<lparr>nextchar = [], args = (''--'' @ name @ ''='' @ v) # rest, nonopts = ns\<rparr>
           found this = after
       \<and> option_loop \<lparr>nextchar = [], args = (''--'' @ name) # v # rest, nonopts = ns\<rparr>
           found this = after
       \<and> option_loop \<lparr>nextchar = [], args = [CHR ''-'', c] # v # rest, nonopts = ns\<rparr>
           found this = after
       \<and> option_loop \<lparr>nextchar = [c], args = element # v # rest, nonopts = ns\<rparr>
           found this = after
       \<and> (v \<noteq> [] \<longrightarrow>
            option_loop \<lparr>nextchar = [], args = (CHR ''-'' # c # v) # rest, nonopts = ns\<rparr>
              found this = after
          \<and> option_loop \<lparr>nextchar = c # v, args = element # rest, nonopts = ns\<rparr>
              found this = after))"

text \<open>
  The trimmed values of the options with the character \<open>c\<close> among the delivered
  options, in their order; and what a field holds that started as \<open>start\<close> and was
  assigned the values of a list one after the other.
\<close>

definition trimmed_values :: "char \<Rightarrow> event list \<Rightarrow> string list" where
  "trimmed_values c es = map (\<lambda>e. Trim (fst (snd e))) (filter (\<lambda>e. fst e = c) es)"

definition last_written :: "string \<Rightarrow> string list \<Rightarrow> string" where
  "last_written start vs = (if vs = [] then start else last vs)"

section \<open>Evaluation and arithmetic lemmas\<close>

lemmas scan_defs = getopt_long_def short_option_def short_has_arg_def optstring_def
  long_option_def find_long_def long_options_def NONOPTION_P_def argv_optind_def

lemmas constructor_defs = Options_Options_def option_loop.simps option_switch_def
  positional_arguments_def legacy_arguments_def new_arguments_def filter_invalid_def
  too_many_arguments_def initial_def err_def EndsWith_def


lemma GetUsage_nonempty: "GetUsage this \<noteq> []"
  by (simp add: GetUsage_def)

lemma unat_strlen: "length s < 2 ^ 64 \<Longrightarrow> unat (strlen s) = length s"
  by (simp add: strlen_def unat_of_nat)

text \<open>
  The position handed to \<^verbatim>\<open>replace\<close> in the legacy Java format: five before the
  end, or, for a string shorter than five characters, a position beyond any
  string.
\<close>

lemma replace_suffix_position:
  assumes "length s < 2 ^ 64"
  shows "unat (strlen s - strlen ''.aidl'') =
           (if 5 \<le> length s then length s - 5 else length s + 2 ^ 64 - 5)"
proof -
  have five: "unat (strlen ''.aidl'') = 5" by (simp add: strlen_def)
  show ?thesis
    unfolding unat_sub_if_size five unat_strlen [OF assms] by (simp add: word_size)
qed

lemma replace_aidl_suffix:
  assumes "length s < 2 ^ 64"
  shows "string_replace s (strlen s - strlen ''.aidl'') (strlen ''.aidl'') ''.java'' =
           (if 5 \<le> length s then Inr (take (length s - 5) s @ ''.java'') else Inl out_of_range)"
proof -
  have five: "unat (strlen ''.aidl'') = 5" by (simp add: strlen_def)
  show ?thesis
    unfolding string_replace_def replace_suffix_position [OF assms] five
    by (cases "5 \<le> length s") simp_all
qed

section \<open>Trimming\<close>

lemma rev_dropWhile_takeWhile:
  "rev (dropWhile P (rev t)) @ rev (takeWhile P (rev t)) = t"
proof -
  have "rev (takeWhile P (rev t) @ dropWhile P (rev t)) = rev (rev t)"
    by (simp only: takeWhile_dropWhile_id)
  then show ?thesis by (simp only: rev_append rev_rev_ident)
qed

lemma Trim_nil: "Trim [] = []"
  by (simp add: Trim_def)

lemma dropWhile_Trim:
  "dropWhile isspace s = Trim s @ rev (takeWhile isspace (rev (dropWhile isspace s)))"
  unfolding Trim_def by (rule rev_dropWhile_takeWhile [symmetric])

lemma Trim_split:
  "s = takeWhile isspace s @ Trim s @ rev (takeWhile isspace (rev (dropWhile isspace s)))"
proof -
  have "s = takeWhile isspace s @ dropWhile isspace s" by simp
  also have "dropWhile isspace s =
      Trim s @ rev (takeWhile isspace (rev (dropWhile isspace s)))"
    by (rule dropWhile_Trim)
  finally show ?thesis .
qed

lemma Trim_surrounding:
  "\<exists>before after. s = before @ Trim s @ after \<and> list_all isspace before \<and> list_all isspace after"
proof (intro exI conjI)
  show "s = takeWhile isspace s @ Trim s @ rev (takeWhile isspace (rev (dropWhile isspace s)))"
    by (rule Trim_split)
  show "list_all isspace (takeWhile isspace s)"
    by (simp add: list_all_iff) (meson set_takeWhileD)
  show "list_all isspace (rev (takeWhile isspace (rev (dropWhile isspace s))))"
    by (simp add: list_all_iff) (meson set_takeWhileD)
qed

lemma Trim_last: "Trim s \<noteq> [] \<Longrightarrow> \<not> isspace (last (Trim s))"
  by (simp add: Trim_def last_rev hd_dropWhile)

lemma Trim_hd:
  assumes "Trim s \<noteq> []"
  shows "\<not> isspace (hd (Trim s))"
proof -
  let ?t = "dropWhile isspace s"
  have t: "?t = Trim s @ rev (takeWhile isspace (rev ?t))"
    by (rule dropWhile_Trim)
  with assms have "?t \<noteq> []" by (metis append_is_Nil_conv)
  then have "\<not> isspace (hd ?t)" by (rule hd_dropWhile)
  moreover from t assms have "hd ?t = hd (Trim s)" by (metis hd_append2)
  ultimately show ?thesis by simp
qed

lemma dropWhile_hd: "xs \<noteq> [] \<Longrightarrow> \<not> P (hd xs) \<Longrightarrow> dropWhile P xs = xs"
  by (cases xs) simp_all

lemma Trim_Trim: "Trim (Trim s) = Trim s"
proof (cases "Trim s = []")
  case True
  then show ?thesis by (metis Trim_nil)
next
  case False
  have a: "dropWhile isspace (Trim s) = Trim s"
    using False Trim_hd [OF False] by (rule dropWhile_hd)
  have "dropWhile isspace (rev (Trim s)) = rev (Trim s)"
  proof (rule dropWhile_hd)
    show "rev (Trim s) \<noteq> []" using False by simp
    show "\<not> isspace (hd (rev (Trim s)))" using Trim_last [OF False] by (simp add: hd_rev)
  qed
  then have "rev (dropWhile isspace (rev (dropWhile isspace (Trim s)))) = Trim s"
    unfolding a by simp
  then show ?thesis unfolding Trim_def [of "Trim s"] .
qed

section \<open>The loop as a run of the switch\<close>

lemma getopt_events_Cons:
  "getopt_events g = (c, optarg, a) # es \<Longrightarrow>
     \<exists>g'. getopt_long g = Opt c optarg g' \<and> a = argv_optind g' \<and> es = getopt_events g'"
  by (subst (asm) getopt_events.simps) (auto split: getopt_result.splits)

lemma option_loop_switches:
  "option_loop g found this =
     (case switches (getopt_events g) found this of
        Break found' this' \<Rightarrow> Positional (getopt_positional g) found' this'
      | Leave out \<Rightarrow> Left out)"
proof (induction g found this rule: option_loop.induct)
  case (1 g found this)
  show ?case
  proof (cases "getopt_long g")
    case (End positional)
    then show ?thesis
      by (simp add: option_loop.simps [of g] getopt_events.simps [of g]
            getopt_positional.simps [of g])
  next
    case (Opt c optarg g')
    show ?thesis
    proof (cases "option_switch c optarg (argv_optind g') found this")
      case (Break found' this')
      from Opt have pos: "getopt_positional g = getopt_positional g'"
        by (simp add: getopt_positional.simps [of g])
      from "1.IH" [OF Opt Break] Opt Break show ?thesis
        unfolding pos by (simp add: option_loop.simps [of g] getopt_events.simps [of g])
    next
      case (Leave out)
      with Opt show ?thesis
        by (simp add: option_loop.simps [of g] getopt_events.simps [of g])
    qed
  qed
qed

text \<open>
  The loop leaves the constructor at the first option on which the switch does,
  whatever follows it.
\<close>

lemma option_loop_leaves:
  "getopt_events g = pre @ (c, optarg, a) # post \<Longrightarrow>
   switches pre found this = Break found' this' \<Longrightarrow>
   option_switch c optarg a found' this' = Leave out \<Longrightarrow>
   option_loop g found this = Left out"
proof (induction pre arbitrary: g found this)
  case Nil
  from Nil.prems(1) obtain g' where "getopt_long g = Opt c optarg g'" "a = argv_optind g'"
    using getopt_events_Cons by fastforce
  with Nil.prems(2,3) show ?case
    by (subst option_loop.simps) simp
next
  case (Cons e pre)
  obtain c1 v1 a1 where e: "e = (c1, v1, a1)" by (cases e)
  from Cons.prems(1) e obtain g' where g': "getopt_long g = Opt c1 v1 g'" "a1 = argv_optind g'"
     "getopt_events g' = pre @ (c, optarg, a) # post"
    using getopt_events_Cons [of g c1 v1 a1 "pre @ (c, optarg, a) # post"] by auto
  from Cons.prems(2) e obtain f1 t1 where step: "option_switch c1 v1 a1 found this = Break f1 t1"
     "switches pre f1 t1 = Break found' this'"
    by (auto split: Flow.splits)
  from Cons.IH [OF g'(3) step(2) Cons.prems(3)] have "option_loop g' f1 t1 = Left out" .
  with g' step show ?case
    by (subst option_loop.simps) simp
qed

subsection \<open>An option that is not the last has an element after it\<close>

lemma short_option_cluster:
  "short_option c cs as ns = Opt x v g' \<Longrightarrow> as \<noteq> [] \<Longrightarrow> cluster_has_element g'"
  by (auto simp: short_option_def cluster_has_element_def Let_def
           split: option.splits has_arg.splits if_splits list.splits)

lemma long_option_cluster:
  "long_option s as ns = Opt x v g' \<Longrightarrow> cluster_has_element g'"
  by (auto simp: long_option_def cluster_has_element_def Let_def
           split: option.splits prod.splits if_splits list.splits)

lemma next_element_cluster:
  "next_element as ns = Opt x v g' \<Longrightarrow> cluster_has_element g'"
proof (induction as arbitrary: ns)
  case Nil
  then show ?case by simp
next
  case (Cons a as)
  show ?case
  proof (cases "a = ''--''")
    case True
    with Cons.prems show ?thesis by simp
  next
    case dashes: False
    show ?thesis
    proof (cases "NONOPTION_P a")
      case True
      with dashes Cons.prems have "next_element as (ns @ [a]) = Opt x v g'" by simp
      then show ?thesis by (rule Cons.IH)
    next
      case option: False
      show ?thesis
      proof (cases "take 2 a = ''--''")
        case True
        with dashes option Cons.prems have "long_option (drop 2 a) as ns = Opt x v g'"
          by simp
        then show ?thesis by (rule long_option_cluster)
      next
        case False
        with dashes option Cons.prems
        have "short_option (a ! 1) (drop 2 a) (a # as) ns = Opt x v g'" by simp
        then show ?thesis by (rule short_option_cluster) simp
      qed
    qed
  qed
qed

lemma getopt_long_cluster:
  assumes "getopt_long g = Opt x v g'" and "cluster_has_element g"
  shows "cluster_has_element g'"
proof (cases "nextchar g")
  case Nil
  with assms(1) have "next_element (args g) (nonopts g) = Opt x v g'"
    by (simp add: getopt_long_def)
  then show ?thesis by (rule next_element_cluster)
next
  case (Cons c cs)
  with assms(1) have "short_option c cs (args g) (nonopts g) = Opt x v g'"
    by (simp add: getopt_long_def)
  moreover from Cons assms(2) have "args g \<noteq> []"
    by (simp add: cluster_has_element_def)
  ultimately show ?thesis by (rule short_option_cluster)
qed

lemma no_element_no_events:
  assumes "cluster_has_element g" and "argv_optind g = None"
  shows "getopt_events g = []"
proof -
  from assms have "args g = []" "nextchar g = []"
    by (auto simp: argv_optind_def cluster_has_element_def split: list.splits)
  then show ?thesis
    by (subst getopt_events.simps) (simp add: getopt_long_def)
qed

subsection \<open>What one pass through the switch can do\<close>

lemma option_switch_keeps_CPP:
  "option_switch c optarg a found this = Break found' this' \<Longrightarrow> language this = CPP \<Longrightarrow>
     language this' = CPP"
  by (auto simp: option_switch_def Let_def split: if_splits option.splits)

lemma option_switch_leaves_with_error:
  "option_switch c optarg (Some a) found this = Leave out \<Longrightarrow> c \<noteq> CHR ''e'' \<Longrightarrow>
     \<exists>this'. out = Constructed this' \<and> error_message this' \<noteq> []"
  by (auto simp: option_switch_def Let_def err_def split: if_splits)

lemma lang_under_CPP_leaves:
  "language this = CPP \<Longrightarrow>
     option_switch (CHR ''l'') optarg a found this =
       Leave (Constructed (err (''aidl-cpp does not support --lang.'' @ endl) this))"
  by (simp add: option_switch_def)

lemma option_loop_lang_under_CPP:
  "getopt_events g = pre @ (CHR ''l'', optarg, a) # post \<Longrightarrow>
   CHR ''e'' \<notin> fst ` set pre \<Longrightarrow> cluster_has_element g \<Longrightarrow> language this = CPP \<Longrightarrow>
   \<exists>this'. option_loop g found this = Left (Constructed this') \<and> error_message this' \<noteq> []"
proof (induction pre arbitrary: g found this)
  case Nil
  from Nil.prems(1) obtain g' where "getopt_long g = Opt (CHR ''l'') optarg g'" "a = argv_optind g'"
    using getopt_events_Cons by fastforce
  with lang_under_CPP_leaves [OF Nil.prems(4)]
  have "option_loop g found this =
          Left (Constructed (err (''aidl-cpp does not support --lang.'' @ endl) this))"
    by (subst option_loop.simps) simp
  then show ?case by (simp add: err_def)
next
  case (Cons e pre)
  obtain c1 v1 a1 where e: "e = (c1, v1, a1)" by (cases e)
  from Cons.prems(1) e obtain g' where g': "getopt_long g = Opt c1 v1 g'" "a1 = argv_optind g'"
     "getopt_events g' = pre @ (CHR ''l'', optarg, a) # post"
    using getopt_events_Cons [of g c1 v1 a1 "pre @ (CHR ''l'', optarg, a) # post"] by auto
  from g'(1) Cons.prems(3) have cl: "cluster_has_element g'" by (rule getopt_long_cluster)
  from Cons.prems(2) e have c1: "c1 \<noteq> CHR ''e''" and pre: "CHR ''e'' \<notin> fst ` set pre" by auto
  from g'(3) no_element_no_events [OF cl] g'(2) obtain a' where a1: "a1 = Some a'"
    by (cases a1) auto
  show ?case
  proof (cases "option_switch c1 v1 a1 found this")
    case (Break f1 t1)
    from this Cons.prems(4) have "language t1 = CPP" by (rule option_switch_keeps_CPP)
    from Cons.IH [OF g'(3) pre cl this]
    obtain this' where "option_loop g' f1 t1 = Left (Constructed this')" "error_message this' \<noteq> []"
      by blast
    with g' Break show ?thesis
      by (subst option_loop.simps) simp
  next
    case (Leave out)
    with a1 c1 obtain this' where "out = Constructed this'" "error_message this' \<noteq> []"
      using option_switch_leaves_with_error by blast
    with g' Leave show ?thesis
      by (subst option_loop.simps) simp
  qed
qed

subsection \<open>The new format checks the extension of every input\<close>

lemma option_switch_found:
  "option_switch c optarg a found this = Break found' this' \<Longrightarrow>
     found' = (found \<or> c = CHR ''l'')"
  by (auto simp: option_switch_def Let_def split: if_splits option.splits)

lemma switches_found:
  "switches es found this = Break found' this' \<Longrightarrow>
     found' = (found \<or> CHR ''l'' \<in> fst ` set es)"
proof (induction es arbitrary: found this)
  case Nil
  then show ?case by simp
next
  case (Cons e es)
  obtain c v a where e: "e = (c, v, a)" by (cases e)
  from Cons.prems e obtain f1 t1 where step: "option_switch c v a found this = Break f1 t1"
     "switches es f1 t1 = Break found' this'"
    by (auto split: Flow.splits)
  from Cons.IH [OF step(2)] option_switch_found [OF step(1)] e show ?case by auto
qed

lemma option_switch_Constructed_error:
  "option_switch c optarg a found this = Leave (Constructed this') \<Longrightarrow>
     error_message this' \<noteq> []"
  by (auto simp: option_switch_def Let_def err_def split: if_splits option.splits)

lemma switches_Constructed_error:
  "switches es found this = Leave (Constructed this') \<Longrightarrow> error_message this' \<noteq> []"
proof (induction es arbitrary: found this)
  case Nil
  then show ?case by simp
next
  case (Cons e es)
  obtain c v a where e: "e = (c, v, a)" by (cases e)
  show ?case
  proof (cases "option_switch c v a found this")
    case (Break f1 t1)
    with Cons.prems e have "switches es f1 t1 = Leave (Constructed this')" by simp
    then show ?thesis by (rule Cons.IH)
  next
    case (Leave out)
    with Cons.prems e have "option_switch c v a found this = Leave (Constructed this')" by simp
    then show ?thesis by (rule option_switch_Constructed_error)
  qed
qed

lemma filter_invalid_fields:
  "input_files (filter_invalid this) = input_files this"
  "output_file (filter_invalid this) = output_file this"
  "task (filter_invalid this) = task this"
  by (simp_all add: filter_invalid_def err_def split: option.splits)

lemma too_many_arguments_fields:
  "input_files (too_many_arguments rest this) = input_files this"
  "output_file (too_many_arguments rest this) = output_file this"
  "output_header_dir (too_many_arguments rest this) = output_header_dir this"
  by (simp_all add: too_many_arguments_def err_def)

lemma new_format_checked:
  assumes "positional_arguments positional found this = Constructed this'"
    and "error_message this' = []"
    and "found \<or> task this \<noteq> COMPILE"
  shows "list_all (\<lambda>input. EndsWith input ''.aidl'') (input_files this')
         \<and> task this' = task this"
proof (cases "new_arguments positional this")
  case (Inl out)
  with assms(1,3) have "out = Constructed this'"
    by (auto simp: positional_arguments_def)
  with Inl have "error_message this' \<noteq> []"
    by (auto simp: new_arguments_def err_def split: if_splits)
  with assms(2) show ?thesis by simp
next
  case (Inr t)
  with assms(1,3) have this': "this' = filter_invalid t"
    by (auto simp: positional_arguments_def)
  from Inr have t: "task t = task this"
    by (auto simp: new_arguments_def split: if_splits)
  show ?thesis
  proof (cases "find (\<lambda>input. \<not> EndsWith input ''.aidl'') (input_files t)")
    case None
    then have "list_all (\<lambda>input. EndsWith input ''.aidl'') (input_files t)"
      by (simp add: find_None_iff list_all_iff)
    with t show ?thesis
      unfolding this' by (simp add: filter_invalid_fields)
  next
    case (Some input)
    then have "error_message this' \<noteq> []"
      unfolding this' by (simp add: filter_invalid_def err_def)
    with assms(2) show ?thesis by simp
  qed
qed

text \<open>
  A valid object that came through the new format (a \<^verbatim>\<open>--lang\<close> was among the
  options, or the task is not to compile) has only input files that end with
  \<^verbatim>\<open>.aidl\<close>, whatever \<^verbatim>\<open>task_\<close> starts as.
\<close>

lemma new_format_inputs_checked:
  assumes "Options_Options task_init (name # rest) default_lang = Constructed this"
    and "Ok this"
    and "CHR ''l'' \<in> fst ` set (getopt_events \<lparr>nextchar = [], args = rest, nonopts = []\<rparr>)
         \<or> task this \<noteq> COMPILE"
  shows "list_all (\<lambda>input. EndsWith input ''.aidl'') (input_files this)"
proof -
  let ?g = "\<lparr>nextchar = [], args = rest, nonopts = []\<rparr>"
  let ?init = "initial task_init name default_lang"
  show ?thesis
  proof (cases "switches (getopt_events ?g) False ?init")
    case (Break found t)
    then have loop: "option_loop ?g False ?init = Positional (getopt_positional ?g) found t"
      by (simp add: option_loop_switches)
    with assms(1) have pos: "positional_arguments (getopt_positional ?g) found t = Constructed this"
      by (simp add: Options_Options_def)
    from switches_found [OF Break] have found: "found = (CHR ''l'' \<in> fst ` set (getopt_events ?g))"
      by simp
    have "found \<or> task t \<noteq> COMPILE"
    proof (cases found)
      case True
      then show ?thesis by simp
    next
      case False
      with found assms(3) have ne: "task this \<noteq> COMPILE" by simp
      have "task this = task t"
      proof (cases "task t = COMPILE")
        case True
        with False pos have "legacy_arguments (getopt_positional ?g) t = Constructed this"
          by (simp add: positional_arguments_def)
        then show ?thesis
          by (auto simp: legacy_arguments_def too_many_arguments_def err_def Let_def
                   split: list.splits if_splits sum.splits)
      next
        case notc: False
        from new_format_checked [OF pos] assms(2) notc show ?thesis by (simp add: Ok_def)
      qed
      with ne show ?thesis by simp
    qed
    from new_format_checked [OF pos _ this] assms(2) show ?thesis by (simp add: Ok_def)
  next
    case (Leave out)
    then have "option_loop ?g False ?init = Left out" by (simp add: option_loop_switches)
    with assms(1) have "out = Constructed this" by (simp add: Options_Options_def)
    with Leave have "error_message this \<noteq> []" using switches_Constructed_error by blast
    with assms(2) show ?thesis by (simp add: Ok_def)
  qed
qed

subsection \<open>What a whole run stores\<close>

text \<open>
  The positional tail consists of elements of the argument vector, so that every
  input file of an object is one of the arguments as it stands; and the fields
  of a valid object that the options with a value write hold the trimmed values
  of these options: the lists all of them in their order, the other fields the
  last one.
\<close>

lemma short_option_elements:
  "short_option c cs as ns = Opt x v g' \<Longrightarrow>
     set (args g') \<union> set (nonopts g') \<subseteq> set as \<union> set ns"
  by (cases as)
     (auto simp: short_option_def Let_def
           split: option.splits has_arg.splits if_splits list.splits)

lemma short_option_not_End: "short_option c cs as ns \<noteq> End positional"
  by (simp add: short_option_def Let_def split: option.splits has_arg.splits list.splits)

lemma long_option_elements:
  "long_option s as ns = Opt x v g' \<Longrightarrow>
     set (args g') \<union> set (nonopts g') \<subseteq> set as \<union> set ns"
  by (auto simp: long_option_def Let_def
           split: option.splits prod.splits if_splits list.splits)

lemma long_option_not_End: "long_option s as ns \<noteq> End positional"
  by (simp add: long_option_def Let_def split: option.splits prod.splits list.splits)


lemma next_element_elements:
  "next_element as ns = Opt x v g' \<Longrightarrow>
     set (args g') \<union> set (nonopts g') \<subseteq> set as \<union> set ns"
proof (induction as arbitrary: ns)
  case Nil
  then show ?case by simp
next
  case (Cons a as)
  show ?case
  proof (cases "a = ''--''")
    case True
    with Cons.prems show ?thesis by simp
  next
    case dashes: False
    show ?thesis
    proof (cases "NONOPTION_P a")
      case True
      with dashes Cons.prems have "next_element as (ns @ [a]) = Opt x v g'" by simp
      from Cons.IH [OF this] have "set (args g') \<union> set (nonopts g') \<subseteq> set as \<union> set (ns @ [a])" .
      also have "\<dots> \<subseteq> set (a # as) \<union> set ns" by (simp add: subset_iff)
      finally show ?thesis .
    next
      case option: False
      show ?thesis
      proof (cases "take 2 a = ''--''")
        case True
        with dashes option Cons.prems have "long_option (drop 2 a) as ns = Opt x v g'"
          by simp
        from long_option_elements [OF this]
        have "set (args g') \<union> set (nonopts g') \<subseteq> set as \<union> set ns" .
        also have "\<dots> \<subseteq> set (a # as) \<union> set ns" by (simp add: subset_iff)
        finally show ?thesis .
      next
        case False
        with dashes option Cons.prems
        have "short_option (a ! 1) (drop 2 a) (a # as) ns = Opt x v g'" by simp
        then show ?thesis by (rule short_option_elements)
      qed
    qed
  qed
qed

lemma next_element_End_elements:
  "next_element as ns = End positional \<Longrightarrow> set positional \<subseteq> set as \<union> set ns"
proof (induction as arbitrary: ns)
  case Nil
  then show ?case by simp
next
  case (Cons a as)
  show ?case
  proof (cases "a = ''--''")
    case True
    with Cons.prems have "positional = ns @ as" by simp
    then show ?thesis by (simp add: subset_iff)
  next
    case dashes: False
    show ?thesis
    proof (cases "NONOPTION_P a")
      case True
      with dashes Cons.prems have "next_element as (ns @ [a]) = End positional" by simp
      from Cons.IH [OF this] have "set positional \<subseteq> set as \<union> set (ns @ [a])" .
      also have "\<dots> \<subseteq> set (a # as) \<union> set ns" by (simp add: subset_iff)
      finally show ?thesis .
    next
      case option: False
      show ?thesis
      proof (cases "take 2 a = ''--''")
        case True
        with dashes option Cons.prems have "long_option (drop 2 a) as ns = End positional"
          by simp
        with long_option_not_End show ?thesis by blast
      next
        case False
        with dashes option Cons.prems
        have "short_option (a ! 1) (drop 2 a) (a # as) ns = End positional" by simp
        with short_option_not_End show ?thesis by blast
      qed
    qed
  qed
qed

lemma getopt_long_elements:
  assumes "getopt_long g = Opt x v g'"
  shows "set (args g') \<union> set (nonopts g') \<subseteq> set (args g) \<union> set (nonopts g)"
proof (cases "nextchar g")
  case Nil
  with assms have "next_element (args g) (nonopts g) = Opt x v g'"
    by (simp add: getopt_long_def)
  then show ?thesis by (rule next_element_elements)
next
  case (Cons c cs)
  with assms have "short_option c cs (args g) (nonopts g) = Opt x v g'"
    by (simp add: getopt_long_def)
  then show ?thesis by (rule short_option_elements)
qed

lemma getopt_long_End_elements:
  assumes "getopt_long g = End positional"
  shows "set positional \<subseteq> set (args g) \<union> set (nonopts g)"
proof (cases "nextchar g")
  case Nil
  with assms have "next_element (args g) (nonopts g) = End positional"
    by (simp add: getopt_long_def)
  then show ?thesis by (rule next_element_End_elements)
next
  case (Cons c cs)
  with assms have "short_option c cs (args g) (nonopts g) = End positional"
    by (simp add: getopt_long_def)
  with short_option_not_End show ?thesis by blast
qed

lemma getopt_positional_elements:
  "set (getopt_positional g) \<subseteq> set (args g) \<union> set (nonopts g)"
proof (induction g rule: getopt_positional.induct)
  case (1 g)
  show ?case
  proof (cases "getopt_long g")
    case (End positional)
    then have "getopt_positional g = positional"
      by (simp add: getopt_positional.simps [of g])
    with getopt_long_End_elements [OF End] show ?thesis by simp
  next
    case (Opt c optarg g')
    then have "getopt_positional g = getopt_positional g'"
      by (simp add: getopt_positional.simps [of g])
    with order_trans [OF "1.IH" [OF Opt] getopt_long_elements [OF Opt]] show ?thesis by simp
  qed
qed


lemma option_switch_inputs:
  "option_switch c optarg a found this = Break found' this' \<Longrightarrow>
     input_files this' = input_files this"
  "option_switch c optarg a found this = Leave (Constructed this') \<Longrightarrow>
     input_files this' = input_files this"
  by (auto simp: option_switch_def Let_def err_def split: if_splits option.splits)

lemma switches_inputs:
  "(switches es found this = Break found' this' \<longrightarrow> input_files this' = input_files this)
   \<and> (switches es found this = Leave (Constructed this') \<longrightarrow> input_files this' = input_files this)"
proof (induction es arbitrary: found this)
  case Nil
  then show ?case by simp
next
  case (Cons e es)
  obtain c v a where e: "e = (c, v, a)" by (cases e)
  show ?case
  proof (cases "option_switch c v a found this")
    case (Break f1 t1)
    with Cons.IH [of f1 t1] option_switch_inputs(1) [OF Break] e show ?thesis by simp
  next
    case (Leave out)
    with option_switch_inputs(2) [of c v a found this this'] e show ?thesis by auto
  qed
qed

lemma positional_arguments_inputs:
  assumes "positional_arguments positional found this = Constructed this'"
  shows "set (input_files this') \<subseteq> set (input_files this) \<union> set positional"
proof (cases "\<not> found \<and> task this = COMPILE")
  case True
  with assms have "legacy_arguments positional this = Constructed this'"
    by (simp add: positional_arguments_def)
  then show ?thesis
    by (auto simp: legacy_arguments_def too_many_arguments_def err_def Let_def
             split: list.splits if_splits sum.splits)
next
  case False
  show ?thesis
  proof (cases "new_arguments positional this")
    case (Inl out)
    with False assms have "out = Constructed this'"
      by (auto simp: positional_arguments_def)
    with Inl show ?thesis
      by (auto simp: new_arguments_def err_def split: if_splits)
  next
    case (Inr t)
    with False assms have "this' = filter_invalid t"
      by (auto simp: positional_arguments_def)
    then have "input_files this' = input_files t" by (simp add: filter_invalid_fields)
    moreover from Inr have "set (input_files t) \<subseteq> set (input_files this) \<union> set positional"
      by (cases positional) (auto simp: new_arguments_def split: if_splits)
    ultimately show ?thesis by simp
  qed
qed

lemma inputs_are_arguments:
  assumes "Options_Options task_init (name # rest) default_lang = Constructed this"
  shows "set (input_files this) \<subseteq> set rest"
proof -
  let ?g = "\<lparr>nextchar = [], args = rest, nonopts = []\<rparr>"
  let ?init = "initial task_init name default_lang"
  have init: "input_files ?init = []" by (simp add: initial_def)
  show ?thesis
  proof (cases "switches (getopt_events ?g) False ?init")
    case (Break found t)
    then have "option_loop ?g False ?init = Positional (getopt_positional ?g) found t"
      by (simp add: option_loop_switches)
    with assms have "positional_arguments (getopt_positional ?g) found t = Constructed this"
      by (simp add: Options_Options_def)
    from positional_arguments_inputs [OF this] switches_inputs [of _ False ?init found t] Break init
    have "set (input_files this) \<subseteq> set (getopt_positional ?g)" by auto
    also have "\<dots> \<subseteq> set rest" using getopt_positional_elements [of ?g] by simp
    finally show ?thesis .
  next
    case (Leave out)
    then have "option_loop ?g False ?init = Left out" by (simp add: option_loop_switches)
    with assms have "out = Constructed this" by (simp add: Options_Options_def)
    with Leave switches_inputs [of "getopt_events ?g" False ?init _ this] init
    show ?thesis by simp
  qed
qed

lemma trimmed_values_simps:
  "trimmed_values c [] = []"
  "trimmed_values c ((c', v, a) # es) =
     (if c' = c then Trim v # trimmed_values c es else trimmed_values c es)"
  by (simp_all add: trimmed_values_def)

lemma trimmed_values_empty: "trimmed_values c es \<noteq> [] \<longleftrightarrow> c \<in> fst ` set es"
  by (auto simp: trimmed_values_def filter_empty_conv image_iff)

lemma last_written_Cons: "last_written start (v # vs) = last_written v vs"
  by (simp add: last_written_def)

lemma option_switch_lists:
  assumes "option_switch c optarg a found this = Break found' this'"
  shows "import_paths this' = import_paths this @ (if c = CHR ''I'' then [Trim optarg] else [])"
    and "preprocessed_files this' =
           preprocessed_files this @ (if c = CHR ''p'' then [Trim optarg] else [])"
  using assms by (auto simp: option_switch_def Let_def split: if_splits option.splits)

lemma option_switch_fields:
  assumes "option_switch c optarg a found this = Break found' this'"
  shows "dependency_file this' = (if c = CHR ''d'' then Trim optarg else dependency_file this)"
    and "output_dir this' = (if c = CHR ''o'' then Trim optarg else output_dir this)"
    and "output_header_dir this' = (if c = CHR ''h'' then Trim optarg else output_header_dir this)"
  using assms by (auto simp: option_switch_def Let_def split: if_splits option.splits)

lemma option_switch_language:
  assumes "option_switch c optarg a found this = Break found' this'"
  shows "if c = CHR ''l''
         then Trim optarg = ''java'' \<and> language this' = JAVA
              \<or> Trim optarg = ''cpp'' \<and> language this' = CPP
         else language this' = language this"
  using assms by (auto simp: option_switch_def Let_def split: if_splits option.splits)

lemma switches_lists:
  "switches es found this = Break found' this' \<Longrightarrow>
     import_paths this' = import_paths this @ trimmed_values (CHR ''I'') es
     \<and> preprocessed_files this' = preprocessed_files this @ trimmed_values (CHR ''p'') es"
proof (induction es arbitrary: found this)
  case Nil
  then show ?case by (simp add: trimmed_values_simps)
next
  case (Cons e es)
  obtain c v a where e: "e = (c, v, a)" by (cases e)
  from Cons.prems e obtain f1 t1 where step: "option_switch c v a found this = Break f1 t1"
     "switches es f1 t1 = Break found' this'"
    by (auto split: Flow.splits)
  from Cons.IH [OF step(2)] option_switch_lists [OF step(1)] e show ?case
    by (simp add: trimmed_values_simps)
qed

lemma switches_fields:
  "switches es found this = Break found' this' \<Longrightarrow>
     dependency_file this' = last_written (dependency_file this) (trimmed_values (CHR ''d'') es)
     \<and> output_dir this' = last_written (output_dir this) (trimmed_values (CHR ''o'') es)
     \<and> output_header_dir this' =
         last_written (output_header_dir this) (trimmed_values (CHR ''h'') es)"
proof (induction es arbitrary: found this)
  case Nil
  then show ?case by (simp add: trimmed_values_simps last_written_def)
next
  case (Cons e es)
  obtain c v a where e: "e = (c, v, a)" by (cases e)
  from Cons.prems e obtain f1 t1 where step: "option_switch c v a found this = Break f1 t1"
     "switches es f1 t1 = Break found' this'"
    by (auto split: Flow.splits)
  from Cons.IH [OF step(2)] option_switch_fields [OF step(1)] e show ?case
    by (simp add: trimmed_values_simps last_written_Cons)
qed

lemma switches_language:
  "switches es found this = Break found' this' \<Longrightarrow>
     (if trimmed_values (CHR ''l'') es = [] then language this' = language this
      else last (trimmed_values (CHR ''l'') es) = ''java'' \<and> language this' = JAVA
           \<or> last (trimmed_values (CHR ''l'') es) = ''cpp'' \<and> language this' = CPP)"
proof (induction es arbitrary: found this)
  case Nil
  then show ?case by (simp add: trimmed_values_simps)
next
  case (Cons e es)
  obtain c v a where e: "e = (c, v, a)" by (cases e)
  from Cons.prems e obtain f1 t1 where step: "option_switch c v a found this = Break f1 t1"
     "switches es f1 t1 = Break found' this'"
    by (auto split: Flow.splits)
  from Cons.IH [OF step(2)] option_switch_language [OF step(1)] e show ?case
    by (auto simp: trimmed_values_simps split: if_splits)
qed

lemma positional_arguments_keeps:
  assumes "positional_arguments positional found this = Constructed this'"
  shows "import_paths this' = import_paths this \<and> preprocessed_files this' = preprocessed_files this
         \<and> dependency_file this' = dependency_file this \<and> output_dir this' = output_dir this
         \<and> language this' = language this \<and> task this' = task this
         \<and> (found \<or> task this \<noteq> COMPILE \<or> language this \<noteq> CPP \<longrightarrow>
              output_header_dir this' = output_header_dir this)"
proof (cases "\<not> found \<and> task this = COMPILE")
  case True
  with assms have "legacy_arguments positional this = Constructed this'"
    by (simp add: positional_arguments_def)
  with True show ?thesis
    by (cases "language this")
       (auto simp: legacy_arguments_def too_many_arguments_def err_def Let_def
             split: list.splits if_splits sum.splits)
next
  case False
  show ?thesis
  proof (cases "new_arguments positional this")
    case (Inl out)
    with False assms have "out = Constructed this'"
      by (auto simp: positional_arguments_def)
    with Inl show ?thesis
      by (auto simp: new_arguments_def err_def split: if_splits)
  next
    case (Inr t)
    with False assms have "this' = filter_invalid t"
      by (auto simp: positional_arguments_def)
    moreover from Inr have "import_paths t = import_paths this"
      "preprocessed_files t = preprocessed_files this" "dependency_file t = dependency_file this"
      "output_dir t = output_dir this" "language t = language this" "task t = task this"
      "output_header_dir t = output_header_dir this"
      by (auto simp: new_arguments_def split: if_splits)
    ultimately show ?thesis
      by (simp add: filter_invalid_def err_def split: option.splits)
  qed
qed

lemma whole_run_values:
  assumes "Options_Options task_init (name # arguments) default_lang = Constructed result"
    and "Ok result"
  shows "(let es = getopt_events \<lparr>nextchar = [], args = arguments, nonopts = []\<rparr>
          in import_paths result = trimmed_values (CHR ''I'') es
           \<and> preprocessed_files result = trimmed_values (CHR ''p'') es
           \<and> dependency_file result = last_written [] (trimmed_values (CHR ''d'') es)
           \<and> output_dir result = last_written [] (trimmed_values (CHR ''o'') es)
           \<and> (trimmed_values (CHR ''l'') es \<noteq> [] \<or> task result \<noteq> COMPILE \<or> language result \<noteq> CPP \<longrightarrow>
                output_header_dir result = last_written [] (trimmed_values (CHR ''h'') es))
           \<and> (if trimmed_values (CHR ''l'') es = [] then language result = default_lang
               else last (trimmed_values (CHR ''l'') es) = ''java'' \<and> language result = JAVA
                    \<or> last (trimmed_values (CHR ''l'') es) = ''cpp'' \<and> language result = CPP))"
proof -
  let ?g = "\<lparr>nextchar = [], args = arguments, nonopts = []\<rparr>"
  let ?init = "initial task_init name default_lang"
  show ?thesis
  proof (cases "switches (getopt_events ?g) False ?init")
    case (Break found t)
    then have "option_loop ?g False ?init = Positional (getopt_positional ?g) found t"
      by (simp add: option_loop_switches)
    with assms(1) have "positional_arguments (getopt_positional ?g) found t = Constructed result"
      by (simp add: Options_Options_def)
    note keeps = positional_arguments_keeps [OF this]
    from switches_found [OF Break]
    have found: "found = (trimmed_values (CHR ''l'') (getopt_events ?g) \<noteq> [])"
      by (simp add: trimmed_values_empty)
    from keeps found switches_lists [OF Break] switches_fields [OF Break]
      switches_language [OF Break]
    show ?thesis
      unfolding Let_def by (simp add: initial_def)
  next
    case (Leave out)
    then have "option_loop ?g False ?init = Left out" by (simp add: option_loop_switches)
    with assms(1) have "out = Constructed result" by (simp add: Options_Options_def)
    with Leave have "error_message result \<noteq> []" using switches_Constructed_error by blast
    with assms(2) show ?thesis by (simp add: Ok_def)
  qed
qed

subsection \<open>The spellings of an option with a value\<close>

text \<open>
  What \<^verbatim>\<open>getopt_long\<close> delivers for each spelling of an option that the tables
  \<open>long_options\<close> and \<open>optstring\<close> give a value, and the step of the loop there.
\<close>

lemma takeWhile_name:
  "CHR ''='' \<notin> set name \<Longrightarrow> takeWhile (\<lambda>x. x \<noteq> CHR ''='') (name @ CHR ''='' # v) = name"
  by (induction name) auto

lemma takeWhile_whole:
  "CHR ''='' \<notin> set name \<Longrightarrow> takeWhile (\<lambda>x. x \<noteq> CHR ''='') name = name"
  by (induction name) auto

lemma long_with_value:
  assumes "find_long name = Some (full, required_argument, c)" and "CHR ''='' \<notin> set name"
    and "name \<noteq> []"
  shows "getopt_long \<lparr>nextchar = [], args = (''--'' @ name @ ''='' @ v) # rest, nonopts = ns\<rparr> =
           Opt c v \<lparr>nextchar = [], args = rest, nonopts = ns\<rparr>"
proof -
  have "next_element ((''--'' @ name @ ''='' @ v) # rest) ns = long_option (name @ ''='' @ v) rest ns"
    using assms(3) by (simp add: NONOPTION_P_def)
  moreover have "long_option (name @ ''='' @ v) rest ns =
      Opt c v \<lparr>nextchar = [], args = rest, nonopts = ns\<rparr>"
    using assms(1,2) by (simp add: long_option_def takeWhile_name)
  ultimately show ?thesis by (simp add: getopt_long_def)
qed

lemma long_then_value:
  assumes "find_long name = Some (full, required_argument, c)" and "CHR ''='' \<notin> set name"
    and "name \<noteq> []"
  shows "getopt_long \<lparr>nextchar = [], args = (''--'' @ name) # v # rest, nonopts = ns\<rparr> =
           Opt c v \<lparr>nextchar = [], args = rest, nonopts = ns\<rparr>"
proof -
  have "next_element ((''--'' @ name) # v # rest) ns = long_option name (v # rest) ns"
    using assms(3) by (simp add: NONOPTION_P_def)
  moreover have "long_option name (v # rest) ns =
      Opt c v \<lparr>nextchar = [], args = rest, nonopts = ns\<rparr>"
    using assms(1,2) by (simp add: long_option_def takeWhile_whole)
  ultimately show ?thesis by (simp add: getopt_long_def)
qed

lemma short_then_value:
  assumes "short_has_arg c = Some required_argument"
  shows "short_option c [] (element # v # rest) ns =
           Opt c v \<lparr>nextchar = [], args = rest, nonopts = ns\<rparr>"
  using assms by (simp add: short_option_def)

lemma short_with_value:
  assumes "short_has_arg c = Some required_argument" and "v \<noteq> []"
  shows "short_option c v (element # rest) ns =
           Opt c v \<lparr>nextchar = [], args = rest, nonopts = ns\<rparr>"
  using assms by (simp add: short_option_def)

lemma short_element:
  assumes "c \<noteq> CHR ''-''"
  shows "next_element ((CHR ''-'' # c # v) # rest) ns =
           short_option c v ((CHR ''-'' # c # v) # rest) ns"
  using assms by (simp add: NONOPTION_P_def)

lemma option_loop_step:
  assumes "getopt_long g = Opt c v g'"
    and "option_switch c v (argv_optind g') found this = Break found' this'"
  shows "option_loop g found this = option_loop g' found' this'"
  using assms by (subst option_loop.simps) simp

lemma every_spelling_stored:
  assumes short: "short_has_arg c = Some required_argument"
    and long: "find_long name = Some (full, required_argument, c)"
    and name: "CHR ''='' \<notin> set name" "name \<noteq> []"
    and c: "c \<noteq> CHR ''-''"
    and switch: "\<And>v a found this. option_switch c v a found this = Break found (store (Trim v) this)"
  shows "spelled_value_stored c name store v element rest ns found this"
proof -
  let ?g' = "\<lparr>nextchar = [], args = rest, nonopts = ns\<rparr>"
  have 1: "option_loop \<lparr>nextchar = [], args = (''--'' @ name @ ''='' @ v) # rest, nonopts = ns\<rparr>
           found this = option_loop ?g' found (store (Trim v) this)"
    by (rule option_loop_step [OF long_with_value [OF long name] switch])
  have 2: "option_loop \<lparr>nextchar = [], args = (''--'' @ name) # v # rest, nonopts = ns\<rparr>
           found this = option_loop ?g' found (store (Trim v) this)"
    by (rule option_loop_step [OF long_then_value [OF long name] switch])
  have "getopt_long \<lparr>nextchar = [], args = [CHR ''-'', c] # v # rest, nonopts = ns\<rparr> = Opt c v ?g'"
    using short_element [OF c, of "[]" "v # rest" ns] short_then_value [OF short, of "[CHR ''-'', c]" v rest ns]
    by (simp add: getopt_long_def)
  then have 3: "option_loop \<lparr>nextchar = [], args = [CHR ''-'', c] # v # rest, nonopts = ns\<rparr>
           found this = option_loop ?g' found (store (Trim v) this)"
    by (rule option_loop_step [OF _ switch])
  have "getopt_long \<lparr>nextchar = [c], args = element # v # rest, nonopts = ns\<rparr> = Opt c v ?g'"
    using short_then_value [OF short, of element v rest ns] by (simp add: getopt_long_def)
  then have 4: "option_loop \<lparr>nextchar = [c], args = element # v # rest, nonopts = ns\<rparr>
           found this = option_loop ?g' found (store (Trim v) this)"
    by (rule option_loop_step [OF _ switch])
  have 5: "option_loop \<lparr>nextchar = [], args = (CHR ''-'' # c # v) # rest, nonopts = ns\<rparr>
              found this = option_loop ?g' found (store (Trim v) this)" if "v \<noteq> []"
  proof -
    have "getopt_long \<lparr>nextchar = [], args = (CHR ''-'' # c # v) # rest, nonopts = ns\<rparr> = Opt c v ?g'"
      using short_element [OF c, of v rest ns]
        short_with_value [OF short that, of "CHR ''-'' # c # v" rest ns]
      by (simp add: getopt_long_def)
    then show ?thesis by (rule option_loop_step [OF _ switch])
  qed
  have 6: "option_loop \<lparr>nextchar = c # v, args = element # rest, nonopts = ns\<rparr>
              found this = option_loop ?g' found (store (Trim v) this)" if "v \<noteq> []"
  proof -
    have "getopt_long \<lparr>nextchar = c # v, args = element # rest, nonopts = ns\<rparr> = Opt c v ?g'"
      using short_with_value [OF short that, of element rest ns] by (simp add: getopt_long_def)
    then show ?thesis by (rule option_loop_step [OF _ switch])
  qed
  from 1 2 3 4 5 6 show ?thesis
    unfolding spelled_value_stored_def Let_def by blast
qed

lemma short_values: 
  "short_has_arg (CHR ''I'') = Some required_argument"
  "short_has_arg (CHR ''p'') = Some required_argument"
  "short_has_arg (CHR ''d'') = Some required_argument"
  "short_has_arg (CHR ''o'') = Some required_argument"
  "short_has_arg (CHR ''h'') = Some required_argument"
  by (simp_all add: short_has_arg_def optstring_def)

lemma long_values:
  "find_long ''include'' = Some (''include'', required_argument, CHR ''I'')"
  "find_long ''preprocessed'' = Some (''preprocessed'', required_argument, CHR ''p'')"
  "find_long ''dep'' = Some (''dep'', required_argument, CHR ''d'')"
  "find_long ''out'' = Some (''out'', required_argument, CHR ''o'')"
  "find_long ''header_out'' = Some (''header_out'', required_argument, CHR ''h'')"
  "find_long ''lang'' = Some (''lang'', required_argument, CHR ''l'')"
  by (simp_all add: find_long_def long_options_def)

lemma spelled_include:
  "spelled_value_stored (CHR ''I'') ''include''
     (\<lambda>v t. t\<lparr>import_paths := import_paths t @ [v]\<rparr>) v element rest ns found this"
  by (rule every_spelling_stored [OF short_values(1) long_values(1)])
     (simp_all add: option_switch_def)

lemma spelled_preprocessed:
  "spelled_value_stored (CHR ''p'') ''preprocessed''
     (\<lambda>v t. t\<lparr>preprocessed_files := preprocessed_files t @ [v]\<rparr>) v element rest ns found this"
  by (rule every_spelling_stored [OF short_values(2) long_values(2)])
     (simp_all add: option_switch_def)

lemma spelled_dep:
  "spelled_value_stored (CHR ''d'') ''dep''
     (\<lambda>v t. t\<lparr>dependency_file := v\<rparr>) v element rest ns found this"
  by (rule every_spelling_stored [OF short_values(3) long_values(3)])
     (simp_all add: option_switch_def)

lemma spelled_out:
  "spelled_value_stored (CHR ''o'') ''out''
     (\<lambda>v t. t\<lparr>output_dir := v\<rparr>) v element rest ns found this"
  by (rule every_spelling_stored [OF short_values(4) long_values(4)])
     (simp_all add: option_switch_def)

lemma spelled_header_out:
  "spelled_value_stored (CHR ''h'') ''header_out''
     (\<lambda>v t. t\<lparr>output_header_dir := v\<rparr>) v element rest ns found this"
  by (rule every_spelling_stored [OF short_values(5) long_values(5)])
     (simp_all add: option_switch_def)

lemma spelled_lang:
  assumes "language this \<noteq> CPP"
  shows "(let after =
            (if Trim v = ''java''
             then option_loop \<lparr>nextchar = [], args = rest, nonopts = ns\<rparr> True
                    (this\<lparr>language := JAVA, task := COMPILE\<rparr>)
             else if Trim v = ''cpp''
             then option_loop \<lparr>nextchar = [], args = rest, nonopts = ns\<rparr> True
                    (this\<lparr>language := CPP, task := COMPILE\<rparr>)
             else Left (Constructed
                    (err (''Unsupported language: '' @ quote @ Trim v @ quote @ endl) this)))
          in option_loop \<lparr>nextchar = [], args = (''--lang='' @ v) # rest, nonopts = ns\<rparr>
               found this = after
           \<and> option_loop \<lparr>nextchar = [], args = ''--lang'' # v # rest, nonopts = ns\<rparr>
               found this = after)"
proof -
  let ?g' = "\<lparr>nextchar = [], args = rest, nonopts = ns\<rparr>"
  have 1: "getopt_long \<lparr>nextchar = [], args = (''--'' @ ''lang'' @ ''='' @ v) # rest, nonopts = ns\<rparr> =
      Opt (CHR ''l'') v ?g'"
    by (rule long_with_value [OF long_values(6)]) simp_all
  have 2: "getopt_long \<lparr>nextchar = [], args = (''--'' @ ''lang'') # v # rest, nonopts = ns\<rparr> =
      Opt (CHR ''l'') v ?g'"
    by (rule long_then_value [OF long_values(6)]) simp_all
  have sw: "option_switch (CHR ''l'') v a found this =
      (if Trim v = ''java'' then Break True (this\<lparr>language := JAVA, task := COMPILE\<rparr>)
       else if Trim v = ''cpp'' then Break True (this\<lparr>language := CPP, task := COMPILE\<rparr>)
       else Leave (Constructed
              (err (''Unsupported language: '' @ quote @ Trim v @ quote @ endl) this)))" for a
    using assms by (simp add: option_switch_def)
  have "option_loop \<lparr>nextchar = [], args = (''--lang='' @ v) # rest, nonopts = ns\<rparr> found this =
      (case option_switch (CHR ''l'') v (argv_optind ?g') found this of
         Break f t \<Rightarrow> option_loop ?g' f t | Leave out \<Rightarrow> Left out)"
    using 1 by (subst option_loop.simps) simp
  moreover have "option_loop \<lparr>nextchar = [], args = ''--lang'' # v # rest, nonopts = ns\<rparr> found this =
      (case option_switch (CHR ''l'') v (argv_optind ?g') found this of
         Break f t \<Rightarrow> option_loop ?g' f t | Leave out \<Rightarrow> Left out)"
    using 2 by (subst option_loop.simps) simp
  ultimately show ?thesis
    unfolding Let_def sw by simp
qed

subsection \<open>Only \<^verbatim>\<open>--lang\<close> makes the task \<open>COMPILE\<close>\<close>




text \<open>
  Where \<^verbatim>\<open>task_\<close> does start as \<open>COMPILE\<close>, the legacy format is taken, and it
  returns before the extension of the input is looked at: the arguments
  \<^verbatim>\<open>Foo.txt Foo.java\<close> give a valid object, while the same input after
  \<^verbatim>\<open>--lang=java -o out\<close> is refused.
\<close>

lemma legacy_format_skips_check:
  "Options_Options COMPILE [name, ''Foo.txt'', ''Foo.java''] JAVA =
     Constructed
       \<lparr>myname = name, language = JAVA, task = COMPILE, import_paths = [],
        preprocessed_files = [], dependency_file = [], output_dir = [],
        output_header_dir = [], dependency_file_ninja = False, gen_traces = False,
        auto_dep_file = False, fail_on_parcelable = False, gen_transaction_names = False,
        input_files = [''Foo.txt''], output_file = ''Foo.java'', error_message = []\<rparr>
   \<and> \<not> EndsWith ''Foo.txt'' ''.aidl''
   \<and> Options_Options COMPILE [name, ''--lang=java'', ''-o'', ''out'', ''Foo.txt''] JAVA =
     Constructed
       \<lparr>myname = name, language = JAVA, task = COMPILE, import_paths = [],
        preprocessed_files = [], dependency_file = [], output_dir = ''out'',
        output_header_dir = [], dependency_file_ninja = False, gen_traces = False,
        auto_dep_file = False, fail_on_parcelable = False, gen_transaction_names = False,
        input_files = [''Foo.txt''], output_file = [],
        error_message =
          ''Expected .aidl file for input but got '' @ quote @ ''Foo.txt'' @ quote @ endl\<rparr>"
  by (simp add: constructor_defs scan_defs Trim_def isspace_def)

section \<open>The extension of the input files\<close>



section \<open>The flags \<^verbatim>\<open>--preprocess\<close> and \<^verbatim>\<open>--dumpapi\<close>\<close>

text \<open>
  Claim C2. When the loop meets \<^verbatim>\<open>--preprocess\<close> it goes on with the next element
  and with \<^verbatim>\<open>task_\<close> set to \<open>PREPROCESS\<close> if \<^verbatim>\<open>task_\<close> was anything but
  \<open>UNSPECIFIED\<close>, and with the object untouched if it was \<open>UNSPECIFIED\<close>. The
  flag \<^verbatim>\<open>--dumpapi\<close> does the same with \<open>DUMPAPI\<close>.
\<close>

theorem preprocess_dumpapi_guard:
  "option_loop \<lparr>nextchar = [], args = ''--preprocess'' # rest, nonopts = ns\<rparr> found this =
     option_loop \<lparr>nextchar = [], args = rest, nonopts = ns\<rparr> found
       (if task this = UNSPECIFIED then this else this\<lparr>task := PREPROCESS\<rparr>)
   \<and> option_loop \<lparr>nextchar = [], args = ''--dumpapi'' # rest, nonopts = ns\<rparr> found this =
     option_loop \<lparr>nextchar = [], args = rest, nonopts = ns\<rparr> found
       (if task this = UNSPECIFIED then this else this\<lparr>task := DUMPAPI\<rparr>)"
proof
  show "option_loop \<lparr>nextchar = [], args = ''--preprocess'' # rest, nonopts = ns\<rparr> found this =
     option_loop \<lparr>nextchar = [], args = rest, nonopts = ns\<rparr> found
       (if task this = UNSPECIFIED then this else this\<lparr>task := PREPROCESS\<rparr>)"
    by (subst option_loop.simps) (simp add: scan_defs option_switch_def)
  show "option_loop \<lparr>nextchar = [], args = ''--dumpapi'' # rest, nonopts = ns\<rparr> found this =
     option_loop \<lparr>nextchar = [], args = rest, nonopts = ns\<rparr> found
       (if task this = UNSPECIFIED then this else this\<lparr>task := DUMPAPI\<rparr>)"
    by (subst option_loop.simps) (simp add: scan_defs option_switch_def)
qed

theorem preprocess_dumpapi_guard_witness:
  "option_loop \<lparr>nextchar = [], args = [''--preprocess''], nonopts = []\<rparr> False
       (initial UNSPECIFIED ''aidl'' JAVA) =
     Positional [] False (initial UNSPECIFIED ''aidl'' JAVA)
   \<and> option_loop \<lparr>nextchar = [], args = [''--preprocess''], nonopts = []\<rparr> False
       (initial COMPILE ''aidl'' JAVA) =
     Positional [] False ((initial COMPILE ''aidl'' JAVA)\<lparr>task := PREPROCESS\<rparr>)
   \<and> option_loop \<lparr>nextchar = [], args = [''--dumpapi''], nonopts = []\<rparr> False
       (initial COMPILE ''aidl'' JAVA) =
     Positional [] False ((initial COMPILE ''aidl'' JAVA)\<lparr>task := DUMPAPI\<rparr>)"
  using preprocess_dumpapi_guard [of "[]" "[]" False "initial UNSPECIFIED ''aidl'' JAVA"]
        preprocess_dumpapi_guard [of "[]" "[]" False "initial COMPILE ''aidl'' JAVA"]
  by (simp add: option_loop.simps [of "\<lparr>nextchar = [], args = [], nonopts = []\<rparr>"]
        getopt_long_def initial_def)

section \<open>The dumpapi form\<close>




section \<open>The flag \<^verbatim>\<open>--lang\<close>\<close>

text \<open>
  Claim C4 says that with default language \<open>JAVA\<close> no number of \<^verbatim>\<open>--lang\<close> flags
  with the values \<^verbatim>\<open>java\<close> and \<^verbatim>\<open>cpp\<close> gives the diagnostic of \<^verbatim>\<open>aidl-cpp\<close>. The
  switch tests the member \<^verbatim>\<open>language_\<close>, which a first \<^verbatim>\<open>--lang=cpp\<close> has set:
  after it, a second \<^verbatim>\<open>--lang\<close> gives that diagnostic, whatever \<^verbatim>\<open>task_\<close> starts as
  and whatever follows.
\<close>

theorem repeated_lang_after_cpp:
  "Options_Options task_init (name # ''--lang=cpp'' # ''--lang=java'' # rest) JAVA =
     Constructed
       \<lparr>myname = name, language = CPP, task = COMPILE, import_paths = [],
        preprocessed_files = [], dependency_file = [], output_dir = [],
        output_header_dir = [], dependency_file_ninja = False, gen_traces = False,
        auto_dep_file = False, fail_on_parcelable = False, gen_transaction_names = False,
        input_files = [], output_file = [],
        error_message = ''aidl-cpp does not support --lang.'' @ endl\<rparr>"
  by (simp add: Options_Options_def option_loop.simps option_switch_def scan_defs
        initial_def err_def Trim_def isspace_def)

theorem repeated_lang_after_cpp_witness:
  "Options_Options COMPILE
     [''aidl'', ''--lang=cpp'', ''--lang=java'', ''-o'', ''out'', ''Foo.aidl''] JAVA =
     Constructed
       \<lparr>myname = ''aidl'', language = CPP, task = COMPILE, import_paths = [],
        preprocessed_files = [], dependency_file = [], output_dir = [],
        output_header_dir = [], dependency_file_ninja = False, gen_traces = False,
        auto_dep_file = False, fail_on_parcelable = False, gen_transaction_names = False,
        input_files = [], output_file = [],
        error_message = ''aidl-cpp does not support --lang.'' @ endl\<rparr>"
  using repeated_lang_after_cpp [of COMPILE "''aidl''" "[''-o'', ''out'', ''Foo.aidl'']"] by simp

text \<open>
  Claim C5, amended. With default language \<open>CPP\<close>, a \<^verbatim>\<open>--lang\<close> flag that the
  scan delivers with no \<^verbatim>\<open>--help\<close> delivered before it makes the constructor
  return an object with a non-empty diagnostic, whatever value the flag has,
  whatever the other arguments are and whatever \<^verbatim>\<open>task_\<close> starts as. (The
  diagnostic is that of \<^verbatim>\<open>--lang\<close>, or that of an earlier option.)
\<close>

theorem lang_under_cpp_default:
  "getopt_events \<lparr>nextchar = [], args = rest, nonopts = []\<rparr> =
     pre @ (CHR ''l'', optarg, a) # post \<Longrightarrow>
   CHR ''e'' \<notin> fst ` set pre \<Longrightarrow>
   \<exists>this. Options_Options task_init (name # rest) CPP = Constructed this \<and> error_message this \<noteq> []"
proof -
  assume ev: "getopt_events \<lparr>nextchar = [], args = rest, nonopts = []\<rparr> =
      pre @ (CHR ''l'', optarg, a) # post"
    and pre: "CHR ''e'' \<notin> fst ` set pre"
  have "cluster_has_element \<lparr>nextchar = [], args = rest, nonopts = []\<rparr>"
    by (simp add: cluster_has_element_def)
  moreover have "language (initial task_init name CPP) = CPP" by (simp add: initial_def)
  ultimately obtain this where
    "option_loop \<lparr>nextchar = [], args = rest, nonopts = []\<rparr> False (initial task_init name CPP) =
       Left (Constructed this)" "error_message this \<noteq> []"
    using option_loop_lang_under_CPP [OF ev pre] by blast
  then show ?thesis by (simp add: Options_Options_def)
qed

theorem lang_under_cpp_default_witness:
  "getopt_events \<lparr>nextchar = [], args = [''-a'', ''--lang=java'', ''Foo.aidl''], nonopts = []\<rparr> =
     [(CHR ''a'', [], Some ''--lang=java'')] @ (CHR ''l'', ''java'', Some ''Foo.aidl'') # []
   \<and> CHR ''e'' \<notin> fst ` set [(CHR ''a'', [], Some ''--lang=java'')]
   \<and> (\<exists>this. Options_Options COMPILE [''aidl-cpp'', ''-a'', ''--lang=java'', ''Foo.aidl''] CPP =
         Constructed this \<and> error_message this \<noteq> [])"
proof -
  have ev: "getopt_events \<lparr>nextchar = [], args = [''-a'', ''--lang=java'', ''Foo.aidl''], nonopts = []\<rparr> =
     [(CHR ''a'', [], Some ''--lang=java'')] @ (CHR ''l'', ''java'', Some ''Foo.aidl'') # []"
    by (simp add: getopt_events.simps scan_defs)
  have no: "CHR ''e'' \<notin> fst ` set [(CHR ''a'', [], Some ''--lang=java'')]"
    by simp
  from ev no lang_under_cpp_default [OF ev no] show ?thesis by blast
qed

text \<open>
  Claim C5 as stated fails where \<^verbatim>\<open>--help\<close> comes first: the process ends with
  the usage text and status 0, and no diagnostic is recorded.
\<close>

theorem help_before_lang_counterexample:
  "Options_Options COMPILE [''aidl-cpp'', ''--help'', ''--lang=java''] CPP =
     Exit (GetUsage (initial COMPILE ''aidl-cpp'' CPP)) 0"
  by (simp add: Options_Options_def option_loop.simps option_switch_def scan_defs)

section \<open>The legacy format\<close>

text \<open>
  Claim C6. In the legacy format with language \<open>JAVA\<close> (no \<^verbatim>\<open>--lang\<close> seen, task
  \<open>COMPILE\<close>, no input file read yet) the first positional argument becomes the
  only input file; a second one becomes the output file (anything after it is
  reported by \<open>too_many_arguments\<close>); and with no second one the output file of
  an input \<open>stem @ ''.aidl''\<close> is \<open>stem @ ''.java''\<close>. In particular, with
  \<^verbatim>\<open>task_\<close> starting as \<open>COMPILE\<close>, the argument \<^verbatim>\<open>Foo.aidl\<close> alone gives the
  output file \<^verbatim>\<open>Foo.java\<close>.
\<close>

theorem legacy_java_form:
  "task this = COMPILE \<Longrightarrow> language this = JAVA \<Longrightarrow> input_files this = [] \<Longrightarrow>
     positional_arguments (input # output # rest) False this =
       Constructed (too_many_arguments rest (this\<lparr>input_files := [input], output_file := output\<rparr>))
   \<and> (length stem + 5 < 2 ^ 64 \<longrightarrow>
        positional_arguments [stem @ ''.aidl''] False this =
          Constructed (this\<lparr>input_files := [stem @ ''.aidl''], output_file := stem @ ''.java''\<rparr>))
   \<and> Options_Options COMPILE [name, ''Foo.aidl''] JAVA =
       Constructed
         \<lparr>myname = name, language = JAVA, task = COMPILE, import_paths = [],
          preprocessed_files = [], dependency_file = [], output_dir = [],
          output_header_dir = [], dependency_file_ninja = False, gen_traces = False,
          auto_dep_file = False, fail_on_parcelable = False, gen_transaction_names = False,
          input_files = [''Foo.aidl''], output_file = ''Foo.java'', error_message = []\<rparr>"
proof (intro conjI impI)
  assume a: "task this = COMPILE" "language this = JAVA" "input_files this = []"
  show "positional_arguments (input # output # rest) False this =
       Constructed (too_many_arguments rest (this\<lparr>input_files := [input], output_file := output\<rparr>))"
    using a by (simp add: positional_arguments_def legacy_arguments_def)
  show "positional_arguments [stem @ ''.aidl''] False this =
          Constructed (this\<lparr>input_files := [stem @ ''.aidl''], output_file := stem @ ''.java''\<rparr>)"
    if "length stem + 5 < 2 ^ 64"
    using a that by (simp add: positional_arguments_def legacy_arguments_def replace_aidl_suffix
        too_many_arguments_def)
next
  have "string_replace ''Foo.aidl'' (strlen ''Foo.aidl'' - strlen ''.aidl'') (strlen ''.aidl'') ''.java''
      = Inr ''Foo.java''"
    by (simp add: replace_aidl_suffix)
  then show "Options_Options COMPILE [name, ''Foo.aidl''] JAVA =
       Constructed
         \<lparr>myname = name, language = JAVA, task = COMPILE, import_paths = [],
          preprocessed_files = [], dependency_file = [], output_dir = [],
          output_header_dir = [], dependency_file_ninja = False, gen_traces = False,
          auto_dep_file = False, fail_on_parcelable = False, gen_transaction_names = False,
          input_files = [''Foo.aidl''], output_file = ''Foo.java'', error_message = []\<rparr>"
    by (simp add: constructor_defs scan_defs)
qed

theorem legacy_java_form_witness:
  "positional_arguments [''Foo.aidl'', ''Bar.java''] False (initial COMPILE ''aidl'' JAVA) =
     Constructed ((initial COMPILE ''aidl'' JAVA)
       \<lparr>input_files := [''Foo.aidl''], output_file := ''Bar.java''\<rparr>)
   \<and> positional_arguments [''Foo.aidl''] False (initial COMPILE ''aidl'' JAVA) =
     Constructed ((initial COMPILE ''aidl'' JAVA)
       \<lparr>input_files := [''Foo.aidl''], output_file := ''Foo.java''\<rparr>)"
  using legacy_java_form [of "initial COMPILE ''aidl'' JAVA" "''Foo.aidl''" "''Bar.java''" "[]"
          "''Foo''" "''aidl''"]
  by (simp add: initial_def too_many_arguments_def)

text \<open>
  Claim C7. In the legacy format with language \<open>CPP\<close> (no \<^verbatim>\<open>--lang\<close> seen, task
  \<open>COMPILE\<close>) three positional arguments become the input file, the header
  directory and the output file, and fewer than two arguments after the input
  file give the diagnostic \<^verbatim>\<open>No HEADER_DIR or OUTPUT.\<close>. In particular, with
  \<^verbatim>\<open>task_\<close> starting as \<open>COMPILE\<close> and default language \<open>CPP\<close>, the arguments
  \<^verbatim>\<open>Foo.aidl HeaderDir OutDir\<close> give a valid object with these three.
\<close>

theorem legacy_cpp_form:
  "task this = COMPILE \<Longrightarrow> language this = CPP \<Longrightarrow>
     positional_arguments [input, header_dir, output] False this =
       Constructed (this\<lparr>input_files := input_files this @ [input],
                          output_header_dir := header_dir, output_file := output\<rparr>)
   \<and> (length rest < 2 \<longrightarrow>
        positional_arguments (input # rest) False this =
          Constructed (err (''No HEADER_DIR or OUTPUT.'' @ endl)
                         (this\<lparr>input_files := input_files this @ [input]\<rparr>)))
   \<and> Options_Options COMPILE [name, ''Foo.aidl'', ''HeaderDir'', ''OutDir''] CPP =
       Constructed
         \<lparr>myname = name, language = CPP, task = COMPILE, import_paths = [],
          preprocessed_files = [], dependency_file = [], output_dir = [],
          output_header_dir = ''HeaderDir'', dependency_file_ninja = False, gen_traces = False,
          auto_dep_file = False, fail_on_parcelable = False, gen_transaction_names = False,
          input_files = [''Foo.aidl''], output_file = ''OutDir'', error_message = []\<rparr>"
proof (intro conjI impI)
  assume a: "task this = COMPILE" "language this = CPP"
  show "positional_arguments [input, header_dir, output] False this =
       Constructed (this\<lparr>input_files := input_files this @ [input],
                          output_header_dir := header_dir, output_file := output\<rparr>)"
    using a by (simp add: positional_arguments_def legacy_arguments_def too_many_arguments_def)
  show "positional_arguments (input # rest) False this =
          Constructed (err (''No HEADER_DIR or OUTPUT.'' @ endl)
                         (this\<lparr>input_files := input_files this @ [input]\<rparr>))"
    if "length rest < 2"
    using a that by (simp add: positional_arguments_def legacy_arguments_def)
next
  show "Options_Options COMPILE [name, ''Foo.aidl'', ''HeaderDir'', ''OutDir''] CPP =
       Constructed
         \<lparr>myname = name, language = CPP, task = COMPILE, import_paths = [],
          preprocessed_files = [], dependency_file = [], output_dir = [],
          output_header_dir = ''HeaderDir'', dependency_file_ninja = False, gen_traces = False,
          auto_dep_file = False, fail_on_parcelable = False, gen_transaction_names = False,
          input_files = [''Foo.aidl''], output_file = ''OutDir'', error_message = []\<rparr>"
    by (simp add: constructor_defs scan_defs)
qed

theorem legacy_cpp_form_witness:
  "positional_arguments [''Foo.aidl'', ''HeaderDir'', ''OutDir''] False
       (initial COMPILE ''aidl-cpp'' CPP) =
     Constructed ((initial COMPILE ''aidl-cpp'' CPP)
       \<lparr>input_files := [''Foo.aidl''], output_header_dir := ''HeaderDir'',
        output_file := ''OutDir''\<rparr>)
   \<and> positional_arguments [''Foo.aidl'', ''HeaderDir''] False (initial COMPILE ''aidl-cpp'' CPP) =
     Constructed ((initial COMPILE ''aidl-cpp'' CPP)
       \<lparr>input_files := [''Foo.aidl''], error_message := ''No HEADER_DIR or OUTPUT.'' @ endl\<rparr>)"
  using legacy_cpp_form [of "initial COMPILE ''aidl-cpp'' CPP" "''Foo.aidl''" "''HeaderDir''"
          "''OutDir''" "[''HeaderDir'']" "''aidl-cpp''"]
  by (simp add: initial_def err_def)

section \<open>The flag \<^verbatim>\<open>--help\<close>\<close>

text \<open>
  Claim C8, amended. When the scan delivers \<^verbatim>\<open>--help\<close> and the switch has let
  every option delivered before it pass (none of them has left the constructor
  with a diagnostic), the process ends with status 0 after the usage text,
  which is not empty, has been written; whatever follows \<^verbatim>\<open>--help\<close>, options or
  positional arguments, is never looked at.
\<close>

theorem help_after_accepted:
  "getopt_events \<lparr>nextchar = [], args = rest, nonopts = []\<rparr> =
     pre @ (CHR ''e'', optarg, a) # post \<Longrightarrow>
   switches pre False (initial task_init name default_lang) = Break found this \<Longrightarrow>
   Options_Options task_init (name # rest) default_lang = Exit (GetUsage this) 0
   \<and> GetUsage this \<noteq> []"
proof -
  assume ev: "getopt_events \<lparr>nextchar = [], args = rest, nonopts = []\<rparr> =
      pre @ (CHR ''e'', optarg, a) # post"
    and sw: "switches pre False (initial task_init name default_lang) = Break found this"
  have "option_switch (CHR ''e'') optarg a found this = Leave (Exit (GetUsage this) 0)"
    by (simp add: option_switch_def)
  from option_loop_leaves [OF ev sw this]
  show ?thesis by (simp add: Options_Options_def GetUsage_nonempty)
qed

theorem help_after_accepted_witness:
  "getopt_events \<lparr>nextchar = [], args = [''-a'', ''--help'', ''Foo.aidl''], nonopts = []\<rparr> =
     [(CHR ''a'', [], Some ''--help'')] @ (CHR ''e'', [], Some ''Foo.aidl'') # []
   \<and> switches [(CHR ''a'', [], Some ''--help'')] False (initial COMPILE ''aidl'' JAVA) =
       Break False ((initial COMPILE ''aidl'' JAVA)\<lparr>auto_dep_file := True\<rparr>)
   \<and> Options_Options COMPILE [''aidl'', ''-a'', ''--help'', ''Foo.aidl''] JAVA =
       Exit (GetUsage ((initial COMPILE ''aidl'' JAVA)\<lparr>auto_dep_file := True\<rparr>)) 0
   \<and> GetUsage ((initial COMPILE ''aidl'' JAVA)\<lparr>auto_dep_file := True\<rparr>) \<noteq> []"
proof -
  have ev: "getopt_events \<lparr>nextchar = [], args = [''-a'', ''--help'', ''Foo.aidl''], nonopts = []\<rparr> =
     [(CHR ''a'', [], Some ''--help'')] @ (CHR ''e'', [], Some ''Foo.aidl'') # []"
    by (simp add: getopt_events.simps scan_defs)
  have sw: "switches [(CHR ''a'', [], Some ''--help'')] False (initial COMPILE ''aidl'' JAVA) =
       Break False ((initial COMPILE ''aidl'' JAVA)\<lparr>auto_dep_file := True\<rparr>)"
    by (simp add: option_switch_def)
  from ev sw help_after_accepted [OF ev sw] show ?thesis by blast
qed

text \<open>
  Claim C8 as stated fails where an earlier flag leaves the constructor:
  \<^verbatim>\<open>--lang=rust --help\<close> gives the diagnostic of the unsupported language and no
  usage text.
\<close>

theorem help_after_error_counterexample:
  "Options_Options COMPILE [''aidl'', ''--lang=rust'', ''--help''] JAVA =
     Constructed
       \<lparr>myname = ''aidl'', language = JAVA, task = COMPILE, import_paths = [],
        preprocessed_files = [], dependency_file = [], output_dir = [],
        output_header_dir = [], dependency_file_ninja = False, gen_traces = False,
        auto_dep_file = False, fail_on_parcelable = False, gen_transaction_names = False,
        input_files = [], output_file = [],
        error_message = ''Unsupported language: '' @ quote @ ''rust'' @ quote @ endl\<rparr>"
  by (simp add: constructor_defs scan_defs Trim_def isspace_def)

section \<open>The derived output file\<close>

text \<open>
  Claim C9. In the legacy Java format with the output omitted, the output file is
  the input with its last five characters replaced by \<^verbatim>\<open>.java\<close>, whatever these
  characters are, as soon as the input has five characters; for a shorter input
  the position \<open>length - 5\<close> wraps around to a position beyond the end of the
  string and \<^verbatim>\<open>replace\<close> throws \<^verbatim>\<open>std::out_of_range\<close>. So the constructor returns
  an object exactly for the inputs of length at least five. (The length of a
  string fits \<^verbatim>\<open>size_t\<close>.)
\<close>

theorem legacy_java_replace_unchecked:
  "task this = COMPILE \<Longrightarrow> language this = JAVA \<Longrightarrow> input_files this = [] \<Longrightarrow>
   length input < 2 ^ 64 \<Longrightarrow>
     (length input < 5 \<longrightarrow> positional_arguments [input] False this = Throw out_of_range)
   \<and> (5 \<le> length input \<longrightarrow> positional_arguments [input] False this =
         Constructed (this\<lparr>input_files := [input],
                            output_file := take (length input - 5) input @ ''.java''\<rparr>))"
  by (simp add: positional_arguments_def legacy_arguments_def replace_aidl_suffix
        too_many_arguments_def)

theorem legacy_java_replace_unchecked_witness:
  "positional_arguments [''Foo''] False (initial COMPILE ''aidl'' JAVA) = Throw out_of_range
   \<and> positional_arguments [''Hello.txt''] False (initial COMPILE ''aidl'' JAVA) =
       Constructed ((initial COMPILE ''aidl'' JAVA)
         \<lparr>input_files := [''Hello.txt''], output_file := ''Hell.java''\<rparr>)"
  using legacy_java_replace_unchecked [of "initial COMPILE ''aidl'' JAVA" "''Foo''"]
        legacy_java_replace_unchecked [of "initial COMPILE ''aidl'' JAVA" "''Hello.txt''"]
  by (simp add: initial_def)

section \<open>Trimmed values, verbatim positional arguments\<close>

text \<open>
  Claim C10. For each of the flags \<^verbatim>\<open>-I\<close>/\<^verbatim>\<open>--include\<close>, \<^verbatim>\<open>-p\<close>/\<^verbatim>\<open>--preprocessed\<close>,
  \<^verbatim>\<open>-d\<close>/\<^verbatim>\<open>--dep\<close>, \<^verbatim>\<open>-o\<close>/\<^verbatim>\<open>--out\<close> and \<^verbatim>\<open>-h\<close>/\<^verbatim>\<open>--header_out\<close>, and for every way
  to spell the flag with a value \<open>v\<close> at any place of any argument vector, the
  loop goes on behind the value with the trimmed \<open>v\<close> stored in the field of the
  flag; at \<^verbatim>\<open>--lang=v\<close> and \<^verbatim>\<open>--lang v\<close>, with the language not \<open>CPP\<close>, it compares
  the trimmed \<open>v\<close> with \<^verbatim>\<open>java\<close> and \<^verbatim>\<open>cpp\<close>. The trimmed value is the value
  without a leading and a trailing run of white space. The positional arguments
  are stored as they are: the input file and the output file of the legacy Java
  format, the input file, the header directory and the output file of the legacy
  CPP format, the input files of the new format, and its output file when the
  task is not to compile. For every argument vector, every input file of the
  object is one of the arguments; and in a valid object the import paths and
  the preprocessed files are the trimmed values of their options in order, the
  dependency file, the output directory and the header directory are the
  trimmed value of the last of their options (the header directory unless the
  legacy CPP format has overwritten it with its positional argument), and the
  language is the one that the trimmed value of the last \<^verbatim>\<open>--lang\<close> names. An
  example with white space in every argument closes the statement.
\<close>

theorem trimming_of_values_only:
  "spelled_value_stored (CHR ''I'') ''include''
     (\<lambda>v t. t\<lparr>import_paths := import_paths t @ [v]\<rparr>) v element rest ns found this
   \<and> spelled_value_stored (CHR ''p'') ''preprocessed''
     (\<lambda>v t. t\<lparr>preprocessed_files := preprocessed_files t @ [v]\<rparr>) v element rest ns found this
   \<and> spelled_value_stored (CHR ''d'') ''dep''
     (\<lambda>v t. t\<lparr>dependency_file := v\<rparr>) v element rest ns found this
   \<and> spelled_value_stored (CHR ''o'') ''out''
     (\<lambda>v t. t\<lparr>output_dir := v\<rparr>) v element rest ns found this
   \<and> spelled_value_stored (CHR ''h'') ''header_out''
     (\<lambda>v t. t\<lparr>output_header_dir := v\<rparr>) v element rest ns found this
   \<and> (language this \<noteq> CPP \<longrightarrow>
        (let after =
           (if Trim v = ''java''
            then option_loop \<lparr>nextchar = [], args = rest, nonopts = ns\<rparr> True
                   (this\<lparr>language := JAVA, task := COMPILE\<rparr>)
            else if Trim v = ''cpp''
            then option_loop \<lparr>nextchar = [], args = rest, nonopts = ns\<rparr> True
                   (this\<lparr>language := CPP, task := COMPILE\<rparr>)
            else Left (Constructed
                   (err (''Unsupported language: '' @ quote @ Trim v @ quote @ endl) this)))
         in option_loop \<lparr>nextchar = [], args = (''--lang='' @ v) # rest, nonopts = ns\<rparr>
              found this = after
          \<and> option_loop \<lparr>nextchar = [], args = ''--lang'' # v # rest, nonopts = ns\<rparr>
              found this = after))
   \<and> (\<exists>before after. v = before @ Trim v @ after
         \<and> list_all isspace before \<and> list_all isspace after)
   \<and> (Trim v = [] \<or> \<not> isspace (hd (Trim v)) \<and> \<not> isspace (last (Trim v)))
   \<and> (task this = COMPILE \<and> language this = JAVA \<longrightarrow>
        (\<exists>this'. positional_arguments (input # target # rest) False this = Constructed this'
           \<and> input_files this' = input_files this @ [input] \<and> output_file this' = target))
   \<and> (task this = COMPILE \<and> language this = CPP \<longrightarrow>
        (\<exists>this'. positional_arguments (input # header_dir # target # rest) False this =
             Constructed this'
           \<and> input_files this' = input_files this @ [input]
           \<and> output_header_dir this' = header_dir \<and> output_file this' = target))
   \<and> (task this = COMPILE \<longrightarrow>
        (\<exists>this'. positional_arguments (input # rest) True this = Constructed this'
           \<and> input_files this' = input_files this @ input # rest
           \<and> output_file this' = output_file this))
   \<and> (task this \<noteq> COMPILE \<longrightarrow>
        (\<exists>this'. positional_arguments (target # input # rest) found this = Constructed this'
           \<and> input_files this' = input_files this @ input # rest
           \<and> output_file this' = target))
   \<and> (Options_Options task_init (name # arguments) default_lang = Constructed result \<longrightarrow>
        set (input_files result) \<subseteq> set arguments)
   \<and> (Options_Options task_init (name # arguments) default_lang = Constructed result \<and> Ok result \<longrightarrow>
        (let es = getopt_events \<lparr>nextchar = [], args = arguments, nonopts = []\<rparr>
         in import_paths result = trimmed_values (CHR ''I'') es
          \<and> preprocessed_files result = trimmed_values (CHR ''p'') es
          \<and> dependency_file result = last_written [] (trimmed_values (CHR ''d'') es)
          \<and> output_dir result = last_written [] (trimmed_values (CHR ''o'') es)
          \<and> (trimmed_values (CHR ''l'') es \<noteq> [] \<or> task result \<noteq> COMPILE
                \<or> language result \<noteq> CPP \<longrightarrow>
               output_header_dir result = last_written [] (trimmed_values (CHR ''h'') es))
          \<and> (if trimmed_values (CHR ''l'') es = [] then language result = default_lang
              else last (trimmed_values (CHR ''l'') es) = ''java'' \<and> language result = JAVA
                   \<or> last (trimmed_values (CHR ''l'') es) = ''cpp'' \<and> language result = CPP)))
   \<and> Options_Options COMPILE
       [name, ''--lang'', '' java '', ''-I'', '' inc '', ''--out= out '', '' A.aidl''] JAVA =
     Constructed
       \<lparr>myname = name, language = JAVA, task = COMPILE, import_paths = [''inc''],
        preprocessed_files = [], dependency_file = [], output_dir = ''out'',
        output_header_dir = [], dependency_file_ninja = False, gen_traces = False,
        auto_dep_file = False, fail_on_parcelable = False, gen_transaction_names = False,
        input_files = ['' A.aidl''], output_file = [], error_message = []\<rparr>"
proof (intro conjI impI)
  show "spelled_value_stored (CHR ''I'') ''include''
     (\<lambda>v t. t\<lparr>import_paths := import_paths t @ [v]\<rparr>) v element rest ns found this"
    by (rule spelled_include)
  show "spelled_value_stored (CHR ''p'') ''preprocessed''
     (\<lambda>v t. t\<lparr>preprocessed_files := preprocessed_files t @ [v]\<rparr>) v element rest ns found this"
    by (rule spelled_preprocessed)
  show "spelled_value_stored (CHR ''d'') ''dep''
     (\<lambda>v t. t\<lparr>dependency_file := v\<rparr>) v element rest ns found this"
    by (rule spelled_dep)
  show "spelled_value_stored (CHR ''o'') ''out''
     (\<lambda>v t. t\<lparr>output_dir := v\<rparr>) v element rest ns found this"
    by (rule spelled_out)
  show "spelled_value_stored (CHR ''h'') ''header_out''
     (\<lambda>v t. t\<lparr>output_header_dir := v\<rparr>) v element rest ns found this"
    by (rule spelled_header_out)
  show "let after =
           (if Trim v = ''java''
            then option_loop \<lparr>nextchar = [], args = rest, nonopts = ns\<rparr> True
                   (this\<lparr>language := JAVA, task := COMPILE\<rparr>)
            else if Trim v = ''cpp''
            then option_loop \<lparr>nextchar = [], args = rest, nonopts = ns\<rparr> True
                   (this\<lparr>language := CPP, task := COMPILE\<rparr>)
            else Left (Constructed
                   (err (''Unsupported language: '' @ quote @ Trim v @ quote @ endl) this)))
         in option_loop \<lparr>nextchar = [], args = (''--lang='' @ v) # rest, nonopts = ns\<rparr>
              found this = after
          \<and> option_loop \<lparr>nextchar = [], args = ''--lang'' # v # rest, nonopts = ns\<rparr>
              found this = after"
    if "language this \<noteq> CPP"
    using that by (rule spelled_lang)
  show "\<exists>before after. v = before @ Trim v @ after
         \<and> list_all isspace before \<and> list_all isspace after"
    by (rule Trim_surrounding)
  show "Trim v = [] \<or> \<not> isspace (hd (Trim v)) \<and> \<not> isspace (last (Trim v))"
    using Trim_hd [of v] Trim_last [of v] by blast
  show "\<exists>this'. positional_arguments (input # target # rest) False this = Constructed this'
           \<and> input_files this' = input_files this @ [input] \<and> output_file this' = target"
    if "task this = COMPILE \<and> language this = JAVA"
    using that by (simp add: positional_arguments_def legacy_arguments_def too_many_arguments_fields)
  show "\<exists>this'. positional_arguments (input # header_dir # target # rest) False this =
             Constructed this'
           \<and> input_files this' = input_files this @ [input]
           \<and> output_header_dir this' = header_dir \<and> output_file this' = target"
    if "task this = COMPILE \<and> language this = CPP"
    using that by (simp add: positional_arguments_def legacy_arguments_def too_many_arguments_fields)
  show "\<exists>this'. positional_arguments (input # rest) True this = Constructed this'
           \<and> input_files this' = input_files this @ input # rest
           \<and> output_file this' = output_file this"
    if "task this = COMPILE"
    using that by (simp add: positional_arguments_def new_arguments_def filter_invalid_fields)
  show "\<exists>this'. positional_arguments (target # input # rest) found this = Constructed this'
           \<and> input_files this' = input_files this @ input # rest
           \<and> output_file this' = target"
    if "task this \<noteq> COMPILE"
    using that by (simp add: positional_arguments_def new_arguments_def filter_invalid_fields)
  show "set (input_files result) \<subseteq> set arguments"
    if "Options_Options task_init (name # arguments) default_lang = Constructed result"
    using that by (rule inputs_are_arguments)
  show "let es = getopt_events \<lparr>nextchar = [], args = arguments, nonopts = []\<rparr>
         in import_paths result = trimmed_values (CHR ''I'') es
          \<and> preprocessed_files result = trimmed_values (CHR ''p'') es
          \<and> dependency_file result = last_written [] (trimmed_values (CHR ''d'') es)
          \<and> output_dir result = last_written [] (trimmed_values (CHR ''o'') es)
          \<and> (trimmed_values (CHR ''l'') es \<noteq> [] \<or> task result \<noteq> COMPILE
                \<or> language result \<noteq> CPP \<longrightarrow>
               output_header_dir result = last_written [] (trimmed_values (CHR ''h'') es))
          \<and> (if trimmed_values (CHR ''l'') es = [] then language result = default_lang
              else last (trimmed_values (CHR ''l'') es) = ''java'' \<and> language result = JAVA
                   \<or> last (trimmed_values (CHR ''l'') es) = ''cpp'' \<and> language result = CPP)"
    if "Options_Options task_init (name # arguments) default_lang = Constructed result \<and> Ok result"
    using that whole_run_values by blast
next
  show "Options_Options COMPILE
       [name, ''--lang'', '' java '', ''-I'', '' inc '', ''--out= out '', '' A.aidl''] JAVA =
     Constructed
       \<lparr>myname = name, language = JAVA, task = COMPILE, import_paths = [''inc''],
        preprocessed_files = [], dependency_file = [], output_dir = ''out'',
        output_header_dir = [], dependency_file_ninja = False, gen_traces = False,
        auto_dep_file = False, fail_on_parcelable = False, gen_transaction_names = False,
        input_files = ['' A.aidl''], output_file = [], error_message = []\<rparr>"
    by (simp add: constructor_defs scan_defs Trim_def isspace_def)
qed

theorem trimming_of_values_only_witness:
  "option_loop \<lparr>nextchar = [], args = [''--out= out '', ''Foo.aidl''], nonopts = []\<rparr> False
       (initial COMPILE ''aidl'' JAVA) =
     Positional [''Foo.aidl''] False ((initial COMPILE ''aidl'' JAVA)\<lparr>output_dir := ''out''\<rparr>)
   \<and> option_loop \<lparr>nextchar = [], args = [''-o out '', ''Foo.aidl''], nonopts = []\<rparr> False
       (initial COMPILE ''aidl'' JAVA) =
     Positional [''Foo.aidl''] False ((initial COMPILE ''aidl'' JAVA)\<lparr>output_dir := ''out''\<rparr>)
   \<and> option_loop \<lparr>nextchar = [], args = [''--lang= java '', ''Foo.aidl''], nonopts = []\<rparr> False
       (initial COMPILE ''aidl'' JAVA) =
     Positional [''Foo.aidl''] True (initial COMPILE ''aidl'' JAVA)
   \<and> (\<exists>this'. positional_arguments ['' A.aidl '', '' A.java ''] False (initial COMPILE ''aidl'' JAVA) =
         Constructed this' \<and> input_files this' = ['' A.aidl ''] \<and> output_file this' = '' A.java '')
   \<and> (\<exists>this'. positional_arguments ['' A.aidl '', '' hdr '', '' A.cpp ''] False
           (initial COMPILE ''aidl-cpp'' CPP) = Constructed this'
         \<and> input_files this' = ['' A.aidl ''] \<and> output_header_dir this' = '' hdr ''
         \<and> output_file this' = '' A.cpp '')
   \<and> (\<exists>this'. positional_arguments ['' A.aidl '', '' B.aidl''] True (initial COMPILE ''aidl'' JAVA) =
         Constructed this' \<and> input_files this' = ['' A.aidl '', '' B.aidl''] \<and> output_file this' = [])
   \<and> (\<exists>this'. positional_arguments ['' out '', '' A.aidl '', '' B.aidl''] False
           (initial PREPROCESS ''aidl'' JAVA) = Constructed this'
         \<and> input_files this' = ['' A.aidl '', '' B.aidl''] \<and> output_file this' = '' out '')
   \<and> set ['' A.aidl''] \<subseteq> set [''--lang'', '' java '', ''-I'', '' inc '', ''--out= out '', '' A.aidl'']
   \<and> trimmed_values (CHR ''I'')
        (getopt_events \<lparr>nextchar = [],
           args = [''--lang'', '' java '', ''-I'', '' inc '', ''--out= out '', '' A.aidl''],
           nonopts = []\<rparr>) = [''inc'']
   \<and> last_written [] (trimmed_values (CHR ''o'')
        (getopt_events \<lparr>nextchar = [],
           args = [''--lang'', '' java '', ''-I'', '' inc '', ''--out= out '', '' A.aidl''],
           nonopts = []\<rparr>)) = ''out''
   \<and> last_written [] (trimmed_values (CHR ''h'')
        (getopt_events \<lparr>nextchar = [],
           args = [''--lang'', '' java '', ''-I'', '' inc '', ''--out= out '', '' A.aidl''],
           nonopts = []\<rparr>)) = []
   \<and> last (trimmed_values (CHR ''l'')
        (getopt_events \<lparr>nextchar = [],
           args = [''--lang'', '' java '', ''-I'', '' inc '', ''--out= out '', '' A.aidl''],
           nonopts = []\<rparr>)) = ''java''"
proof -
  let ?java = "initial COMPILE ''aidl'' JAVA"
  let ?args = "[''--lang'', '' java '', ''-I'', '' inc '', ''--out= out '', '' A.aidl'']"
  let ?result = "\<lparr>myname = ''aidl'', language = JAVA, task = COMPILE, import_paths = [''inc''],
        preprocessed_files = [], dependency_file = [], output_dir = ''out'',
        output_header_dir = [], dependency_file_ninja = False, gen_traces = False,
        auto_dep_file = False, fail_on_parcelable = False, gen_transaction_names = False,
        input_files = ['' A.aidl''], output_file = [], error_message = []\<rparr>"
  note java = trimming_of_values_only [where v = "'' out ''" and found = False
      and this = ?java and input = "'' A.aidl ''" and target = "'' A.java ''"
      and rest = "[''Foo.aidl'']" and ns = "[]"
      and task_init = COMPILE and name = "''aidl''" and arguments = ?args and default_lang = JAVA
      and result = ?result]
  note lang = trimming_of_values_only [where v = "'' java ''" and found = False
      and this = ?java and rest = "[''Foo.aidl'']" and ns = "[]"]
  note legacy = trimming_of_values_only [where this = ?java and input = "'' A.aidl ''"
      and target = "'' A.java ''" and rest = "[]"]
  note new = trimming_of_values_only [where this = ?java and input = "'' A.aidl ''"
      and rest = "['' B.aidl'']"]
  note cpp = trimming_of_values_only [where this = "initial COMPILE ''aidl-cpp'' CPP"
      and input = "'' A.aidl ''" and header_dir = "'' hdr ''" and target = "'' A.cpp ''"
      and rest = "[]"]
  note pre = trimming_of_values_only [where this = "initial PREPROCESS ''aidl'' JAVA"
      and found = False and target = "'' out ''" and input = "'' A.aidl ''"
      and rest = "['' B.aidl'']"]
  have j: "task ?java = COMPILE \<and> language ?java = JAVA" "language ?java \<noteq> CPP"
    by (simp_all add: initial_def)
  have c: "task (initial COMPILE ''aidl-cpp'' CPP) = COMPILE
      \<and> language (initial COMPILE ''aidl-cpp'' CPP) = CPP" by (simp add: initial_def)
  have p: "task (initial PREPROCESS ''aidl'' JAVA) \<noteq> COMPILE" by (simp add: initial_def)
  have ok: "Ok ?result" by (simp add: Ok_def)
  have tr: "Trim '' out '' = ''out''" "Trim '' java '' = ''java''"
    by (simp_all add: Trim_def isspace_def)
  have rest: "option_loop \<lparr>nextchar = [], args = [''Foo.aidl''], nonopts = []\<rparr> f t =
      Positional [''Foo.aidl''] f t" for f t
    by (simp add: option_loop.simps scan_defs)
  have java_same: "?java\<lparr>language := JAVA, task := COMPILE\<rparr> = ?java"
    by (simp add: initial_def)
  from java have 1: "option_loop \<lparr>nextchar = [], args = [''--out= out '', ''Foo.aidl''], nonopts = []\<rparr>
      False ?java = Positional [''Foo.aidl''] False (?java\<lparr>output_dir := ''out''\<rparr>)"
    and 2: "option_loop \<lparr>nextchar = [], args = [''-o out '', ''Foo.aidl''], nonopts = []\<rparr>
      False ?java = Positional [''Foo.aidl''] False (?java\<lparr>output_dir := ''out''\<rparr>)"
    by (simp_all add: spelled_value_stored_def Let_def tr rest)
  from lang j(2) have 3: "option_loop \<lparr>nextchar = [], args = [''--lang= java '', ''Foo.aidl''],
      nonopts = []\<rparr> False ?java = Positional [''Foo.aidl''] True ?java"
    by (simp add: Let_def tr rest java_same)
  have made: "Options_Options COMPILE (''aidl'' # ?args) JAVA = Constructed ?result"
    by (simp add: constructor_defs scan_defs Trim_def isspace_def)
  have ev: "getopt_events \<lparr>nextchar = [], args = ?args, nonopts = []\<rparr> =
      [(CHR ''l'', '' java '', Some ''-I''), (CHR ''I'', '' inc '', Some ''--out= out ''),
       (CHR ''o'', '' out '', Some '' A.aidl'')]"
    by (simp add: getopt_events.simps scan_defs)
  have 4: "trimmed_values (CHR ''I'') (getopt_events \<lparr>nextchar = [], args = ?args, nonopts = []\<rparr>) = [''inc'']"
    "last_written [] (trimmed_values (CHR ''o'')
        (getopt_events \<lparr>nextchar = [], args = ?args, nonopts = []\<rparr>)) = ''out''"
    "last_written [] (trimmed_values (CHR ''h'')
        (getopt_events \<lparr>nextchar = [], args = ?args, nonopts = []\<rparr>)) = []"
    "last (trimmed_values (CHR ''l'')
        (getopt_events \<lparr>nextchar = [], args = ?args, nonopts = []\<rparr>)) = ''java''"
    using java made ok unfolding ev
    by (simp_all add: Let_def trimmed_values_def last_written_def Trim_def isspace_def)
  from legacy j(1) new cpp c pre p 1 2 3 4 show ?thesis
    by (simp add: initial_def)
qed

end
